theory Spec2Isabelle
  imports Main "HOL-Library.Log_Nat"
begin

section \<open>Python values used by the bot\<close>

subsection \<open>Strings\<close>

text \<open>
  A Python \<open>str\<close> is a sequence of Unicode code points, so a string is modelled as the
  list of its code points. \<open>ascii\<close> reads an ASCII literal as such a string.
\<close>

type_synonym pystr = "nat list"

definition ascii :: "string \<Rightarrow> pystr" where
  "ascii s = map of_char s"

text \<open>
  \<open>str.isspace\<close> of one character: the code points that \<open>str.strip()\<close> and
  \<open>str.split()\<close> treat as white space (CPython 3.11, Unicode 14).
\<close>

definition isspace :: "nat \<Rightarrow> bool" where
  "isspace c = (c \<in> set [9, 10, 11, 12, 13, 28, 29, 30, 31, 32, 133, 160, 5760, 8192, 8193,
     8194, 8195, 8196, 8197, 8198, 8199, 8200, 8201, 8202, 8232, 8233, 8239, 8287, 12288])"

text \<open>\<open>s.strip()\<close>: white space removed at both ends.\<close>

definition strip :: "pystr \<Rightarrow> pystr" where
  "strip s = rev (dropWhile isspace (rev (dropWhile isspace s)))"

subsection \<open>Exceptions\<close>

datatype exn =
    ValueError
  | IndexError
  | AttributeError
  | ZeroDivisionError
  | OperationalError
  | TelegramAPIError

text \<open>
  Subscription \<open>xs[i]\<close> of a list: indices \<open>-len(xs) .. -1\<close> address the list from its
  end, and any index outside \<open>-len(xs) .. len(xs) - 1\<close> raises \<open>IndexError\<close>.
\<close>

definition py_getitem :: "'a list \<Rightarrow> int \<Rightarrow> exn + 'a" where
  "py_getitem xs i =
     (if 0 \<le> i \<and> i < int (length xs) then Inr (xs ! nat i)
      else if i < 0 \<and> - int (length xs) \<le> i then Inr (xs ! nat (int (length xs) + i))
      else Inl IndexError)"

text \<open>
  The decimal digits of Unicode (category Nd), as the regular-expression class \<open>\d\<close> and
  \<open>int()\<close> read them (CPython 3.11, Unicode 14): every run of ten digits starts at one of
  these code points, the digit zero of its script; ASCII \<open>0\<close> is the first.
\<close>

definition decimal_zeros :: "nat list" where
  "decimal_zeros =
    [48, 1632, 1776, 1984, 2406, 2534, 2662, 2790, 2918, 3046, 3174, 3302, 3430, 3558, 3664,
     3792, 3872, 4160, 4240, 6112, 6160, 6470, 6608, 6784, 6800, 6992, 7088, 7232, 7248,
     42528, 43216, 43264, 43472, 43504, 43600, 44016, 65296, 66720, 68912, 69734, 69872,
     69942, 70096, 70384, 70736, 70864, 71248, 71360, 71472, 71904, 72016, 72784, 73040,
     73120, 92768, 92864, 93008, 120782, 120792, 120802, 120812, 120822, 123200, 123632,
     125264, 130032]"

definition decimal_value :: "nat \<Rightarrow> nat option" where
  "decimal_value c =
     (case find (\<lambda>z. z \<le> c \<and> c < z + 10) decimal_zeros of
        None \<Rightarrow> None
      | Some z \<Rightarrow> Some (c - z))"

definition isdecimal :: "nat \<Rightarrow> bool" where
  "isdecimal c = (decimal_value c \<noteq> None)"

text \<open>
  \<open>int(s)\<close> on a string of decimal digits with optional surrounding white space, the only
  texts the date pattern captures; anything else is a \<open>ValueError\<close> here (signs and
  underscores, which \<open>int()\<close> also reads, never reach it).
\<close>

fun digits_value :: "nat \<Rightarrow> pystr \<Rightarrow> nat option" where
  "digits_value acc [] = Some acc"
| "digits_value acc (c # cs) =
     (case decimal_value c of
        None \<Rightarrow> None
      | Some v \<Rightarrow> digits_value (10 * acc + v) cs)"

definition py_int :: "pystr \<Rightarrow> exn + int" where
  "py_int s =
     (if strip s = [] then Inl ValueError
      else (case digits_value 0 (strip s) of
              None \<Rightarrow> Inl ValueError
            | Some n \<Rightarrow> Inr (int n)))"

subsection \<open>Calendar dates\<close>

text \<open>
  A \<open>datetime.date\<close>: the three fields of the proleptic Gregorian calendar, with the
  helpers of the standard library's \<open>datetime\<close> module.
\<close>

record date =
  year :: int
  month :: int
  day :: int

definition MINYEAR :: int where "MINYEAR = 1"

definition MAXYEAR :: int where "MAXYEAR = 9999"

definition is_leap :: "int \<Rightarrow> bool" where
  "is_leap y = (y mod 4 = 0 \<and> (y mod 400 = 0 \<or> y mod 100 \<noteq> 0))"

definition DAYS_IN_MONTH :: "int list" where
  "DAYS_IN_MONTH = [-1, 31, 28, 31, 30, 31, 30, 31, 31, 30, 31, 30, 31]"

definition DAYS_BEFORE_MONTH :: "int list" where
  "DAYS_BEFORE_MONTH = [-1, 0, 31, 59, 90, 120, 151, 181, 212, 243, 273, 304, 334]"

definition days_before_year :: "int \<Rightarrow> int" where
  "days_before_year y = (y - 1) * 365 + (y - 1) div 4 - (y - 1) div 100 + (y - 1) div 400"

definition days_in_month :: "int \<Rightarrow> int \<Rightarrow> int" where
  "days_in_month y m = (if m = 2 \<and> is_leap y then 29 else DAYS_IN_MONTH ! nat m)"

definition days_before_month :: "int \<Rightarrow> int \<Rightarrow> int" where
  "days_before_month y m = DAYS_BEFORE_MONTH ! nat m + (if 2 < m \<and> is_leap y then 1 else 0)"

text \<open>
  The constructor \<open>date(year, month, day)\<close>: it raises \<open>ValueError\<close> unless the fields name
  a day of the calendar.
\<close>

definition new_date :: "int \<Rightarrow> int \<Rightarrow> int \<Rightarrow> exn + date" where
  "new_date y m d =
     (if \<not> (MINYEAR \<le> y \<and> y \<le> MAXYEAR) then Inl ValueError
      else if \<not> (1 \<le> m \<and> m \<le> 12) then Inl ValueError
      else if \<not> (1 \<le> d \<and> d \<le> days_in_month y m) then Inl ValueError
      else Inr \<lparr>year = y, month = m, day = d\<rparr>)"

text \<open>\<open>d.toordinal()\<close>: the day's number, 1 January of year 1 being day 1.\<close>

definition toordinal :: "date \<Rightarrow> int" where
  "toordinal d = days_before_year (year d) + days_before_month (year d) (month d) + day d"

text \<open>\<open>(a - b).days\<close> for two dates: the difference of their ordinals.\<close>

definition days_between :: "date \<Rightarrow> date \<Rightarrow> int" where
  "days_between a b = toordinal a - toordinal b"

text \<open>
  The handlers' \<open>weeksLived = (datetime.date.today() - b_date).days // 7\<close>; \<open>//\<close> is floor
  division, as \<open>div\<close> is on \<open>int\<close>.
\<close>

definition weeksLived :: "date \<Rightarrow> date \<Rightarrow> int" where
  "weeksLived today' b_date = days_between today' b_date div 7"

subsection \<open>\<open>datetime.strptime\<close> with the format \<open>%d.%m.%Y\<close>\<close>

text \<open>
  \<open>strptime\<close> compiles the format to a regular expression and matches it at the start of
  the text with a backtracking matcher. A pattern is matched against a text by listing,
  in the matcher's order of preference, the texts that can remain after it.
\<close>

datatype rx =
    Lit nat
  | Range nat nat
  | Digit
  | Seq rx rx
  | Alt rx rx

fun rx_match :: "rx \<Rightarrow> pystr \<Rightarrow> pystr list" where
  "rx_match (Lit a) s = (case s of [] \<Rightarrow> [] | c # r \<Rightarrow> if c = a then [r] else [])"
| "rx_match (Range a b) s = (case s of [] \<Rightarrow> [] | c # r \<Rightarrow> if a \<le> c \<and> c \<le> b then [r] else [])"
| "rx_match Digit s = (case s of [] \<Rightarrow> [] | c # r \<Rightarrow> if isdecimal c then [r] else [])"
| "rx_match (Seq p q) s = concat (map (rx_match q) (rx_match p s))"
| "rx_match (Alt p q) s = rx_match p s @ rx_match q s"

text \<open>
  The three directives as \<open>_strptime.TimeRE\<close> defines them:
  \<^verbatim>\<open>%d = 3[0-1]|[1-2]\d|0[1-9]|[1-9]| [1-9]\<close>,
  \<^verbatim>\<open>%m = 1[0-2]|0[1-9]|[1-9]\<close> and \<^verbatim>\<open>%Y = \d\d\d\d\<close>.
\<close>

definition re_d :: rx where
  "re_d = Alt (Seq (Lit 51) (Range 48 49))
         (Alt (Seq (Range 49 50) Digit)
         (Alt (Seq (Lit 48) (Range 49 57))
         (Alt (Range 49 57)
              (Seq (Lit 32) (Range 49 57)))))"

definition re_m :: rx where
  "re_m = Alt (Seq (Lit 49) (Range 48 50))
         (Alt (Seq (Lit 48) (Range 49 57))
              (Range 49 57))"

definition re_Y :: rx where
  "re_Y = Seq Digit (Seq Digit (Seq Digit Digit))"

text \<open>
  A named group: each way the pattern matches, as the captured text and the text that
  remains.
\<close>

definition rx_group :: "rx \<Rightarrow> pystr \<Rightarrow> (pystr \<times> pystr) list" where
  "rx_group p s = map (\<lambda>r. (take (length s - length r) s, r)) (rx_match p s)"

text \<open>
  All matches of \<^verbatim>\<open>(?P<d>...)\.(?P<m>...)\.(?P<Y>...)\<close> at the start of the text, in order
  of preference: the three captured groups and the unconverted rest.
\<close>

definition format_regex_matches :: "pystr \<Rightarrow> (pystr \<times> pystr \<times> pystr \<times> pystr) list" where
  "format_regex_matches s =
     concat (map (\<lambda>(d, r1).
       concat (map (\<lambda>r2.
         concat (map (\<lambda>(m, r3).
           concat (map (\<lambda>r4.
             map (\<lambda>(y, r5). (d, m, y, r5)) (rx_group re_Y r4))
           (rx_match (Lit 46) r3)))
         (rx_group re_m r2)))
       (rx_match (Lit 46) r1)))
     (rx_group re_d s))"

text \<open>
  \<open>datetime.datetime.strptime(s, "%d.%m.%Y").date()\<close>: the first match is taken; no match,
  text left over after it, or fields that name no calendar day raise \<open>ValueError\<close>. The
  groups are converted with \<open>int()\<close> in the order of the pattern.
\<close>

definition strptime :: "pystr \<Rightarrow> exn + date" where
  "strptime s =
     (case format_regex_matches s of
        [] \<Rightarrow> Inl ValueError
      | (d, m, y, rest) # _ \<Rightarrow>
          if rest \<noteq> [] then Inl ValueError
          else (case py_int d of Inl e \<Rightarrow> Inl e | Inr dv \<Rightarrow>
               (case py_int m of Inl e \<Rightarrow> Inl e | Inr mv \<Rightarrow>
               (case py_int y of Inl e \<Rightarrow> Inl e | Inr yv \<Rightarrow>
                new_date yv mv dv))))"

subsection \<open>Floats\<close>

text \<open>
  A finite \<open>float\<close> is a binary64 number \<open>m * 2 ^ e\<close>, modelled by the pair of the two
  integers. Every arithmetic result is rounded to 53 significant bits, to nearest and
  ties to even, as IEEE 754 does. The exponent is not bounded: overflow to infinity and
  gradual underflow are outside the model, and so are the infinities, NaN and the sign of
  zero.
\<close>

datatype pyfloat = Float int int

text \<open>\<open>n.bit_length()\<close> for \<open>n \<ge> 0\<close>: the number of binary digits of \<open>n\<close>.\<close>

function bit_length :: "int \<Rightarrow> nat" where
  "bit_length n = (if n \<le> 0 then 0 else Suc (bit_length (n div 2)))"
  by pat_completeness auto
termination
  by (relation "measure nat") auto

declare bit_length.simps [simp del]

text \<open>\<open>m / 2 ^ k\<close> for \<open>m \<ge> 0\<close>, rounded to the nearest integer, a tie to the even one.\<close>

definition round_shift :: "int \<Rightarrow> nat \<Rightarrow> int" where
  "round_shift m k =
     (let q = m div 2 ^ k; r = m mod 2 ^ k
      in if 2 * r < 2 ^ k then q
         else if 2 ^ k < 2 * r then q + 1
         else if even q then q else q + 1)"

definition fl_round :: "pyfloat \<Rightarrow> pyfloat" where
  "fl_round x =
     (case x of Float m e \<Rightarrow>
        let n = bit_length \<bar>m\<bar>
        in if n \<le> 53 then Float m e
           else Float (sgn m * round_shift \<bar>m\<bar> (n - 53)) (e + int (n - 53)))"

definition float_of_int :: "int \<Rightarrow> pyfloat" where
  "float_of_int n = fl_round (Float n 0)"

definition fmul :: "pyfloat \<Rightarrow> pyfloat \<Rightarrow> pyfloat" where
  "fmul x y = (case x of Float m1 e1 \<Rightarrow> case y of Float m2 e2 \<Rightarrow>
                 fl_round (Float (m1 * m2) (e1 + e2)))"

text \<open>
  \<open>a / b\<close> on two \<open>int\<close>s: the correctly rounded quotient. The quotient is computed to at
  least 55 bits, with one more bit that records a remainder, and then rounded.
\<close>

definition int_truediv :: "int \<Rightarrow> int \<Rightarrow> exn + pyfloat" where
  "int_truediv a b =
     (if b = 0 then Inl ZeroDivisionError
      else let sh = (55 + bit_length \<bar>b\<bar>) - bit_length \<bar>a\<bar>;
               q = (\<bar>a\<bar> * 2 ^ sh) div \<bar>b\<bar>;
               r = (\<bar>a\<bar> * 2 ^ sh) mod \<bar>b\<bar>
           in Inr (fl_round (Float (sgn a * sgn b * (2 * q + (if r = 0 then 0 else 1)))
                                   (- int sh - 1))))"

text \<open>\<open>int(x)\<close> on a float: truncation towards zero.\<close>

definition float_trunc :: "pyfloat \<Rightarrow> int" where
  "float_trunc x =
     (case x of Float m e \<Rightarrow>
        if 0 \<le> e then m * 2 ^ nat e else sgn m * (\<bar>m\<bar> div 2 ^ nat (- e)))"

text \<open>\<open>str(n)\<close> for \<open>n \<ge> 0\<close>: the decimal digits.\<close>

fun str_nat :: "nat \<Rightarrow> pystr" where
  "str_nat n = (if n < 10 then [48 + n] else str_nat (n div 10) @ [48 + n mod 10])"

declare str_nat.simps [simp del]

text \<open>
  The format specification \<open>.1%\<close>: the float times 100 (a float product), written with one
  digit after the point, the exact value rounded half to even, and a per cent sign.
\<close>

definition format_percent1 :: "pyfloat \<Rightarrow> pystr" where
  "format_percent1 x =
     (case fmul x (Float 100 0) of Float m e \<Rightarrow>
        let n = nat (if 0 \<le> e then \<bar>m\<bar> * 10 * 2 ^ nat e
                     else round_shift (\<bar>m\<bar> * 10) (nat (- e)))
        in (if m < 0 then [45] else []) @ str_nat (n div 10) @ [46, 48 + n mod 10, 37])"

section \<open>Utilities of \<open>src/bot.py\<close>\<close>

subsection \<open>\<open>validate_date\<close>\<close>

text \<open>
  \<open>validate_date\<close> returns the parsed date, or \<open>None\<close> when \<open>strptime\<close> raises
  \<open>ValueError\<close>; its \<open>except\<close> clause catches no other exception.
\<close>

definition validate_date :: "pystr \<Rightarrow> exn + date option" where
  "validate_date date_str =
     (case strptime date_str of
        Inr d \<Rightarrow> Inr (Some d)
      | Inl e \<Rightarrow> if e = ValueError then Inr None else Inl e)"

subsection \<open>\<open>create_progress_bar\<close>\<close>

text \<open>
  The bar glyphs U+25B0 (filled) and U+25B1 (empty). \<open>'x' * n\<close> repeats a string \<open>n\<close> times
  and is empty for \<open>n \<le> 0\<close>.
\<close>

definition FILLED :: nat where "FILLED = 9648"

definition EMPTY :: nat where "EMPTY = 9649"

definition create_progress_bar :: "pyfloat \<Rightarrow> int \<Rightarrow> pystr" where
  "create_progress_bar percentage length' =
     (let filled = replicate (nat (float_trunc (fmul percentage (float_of_int length')))) FILLED;
          empty = replicate (nat (length' - int (length filled))) EMPTY
      in filled @ empty @ [32] @ format_percent1 percentage)"

subsection \<open>\<open>get_moon_phase\<close>\<close>

text \<open>
  The list \<open>phases\<close> of \<open>get_moon_phase\<close>: eight labels, each a moon emoji
  (U+1F311 .. U+1F318), a space and a Russian caption.
\<close>

definition phases :: "pystr list" where
  "phases =
   [[127761, 32, 1053, 1086, 1074, 1086, 1083, 1091, 1085, 1080, 1077, 32, 45, 32, 1053,
     1072, 1095, 1072, 1083, 1086, 32, 1087, 1091, 1090, 1080],
    [127762, 32, 1052, 1086, 1083, 1086, 1076, 1072, 1103, 32, 1083, 1091, 1085, 1072, 32,
     45, 32, 1042, 1088, 1077, 1084, 1103, 32, 1076, 1077, 1081, 1089, 1090, 1074, 1080,
     1081],
    [127763, 32, 1055, 1077, 1088, 1074, 1072, 1103, 32, 1095, 1077, 1090, 1074, 1077,
     1088, 1090, 1100, 32, 45, 32, 1048, 1089, 1087, 1099, 1090, 1072, 1085, 1080, 1077,
     32, 1074, 1086, 1083, 1080],
    [127764, 32, 1055, 1088, 1080, 1073, 1099, 1074, 1072, 1102, 1097, 1072, 1103, 32, 45,
     32, 1057, 1073, 1086, 1088, 32, 1087, 1083, 1086, 1076, 1086, 1074],
    [127765, 32, 1055, 1086, 1083, 1085, 1086, 1083, 1091, 1085, 1080, 1077, 32, 45, 32,
     1055, 1080, 1082, 32, 1074, 1086, 1079, 1084, 1086, 1078, 1085, 1086, 1089, 1090,
     1077, 1081],
    [127766, 32, 1059, 1073, 1099, 1074, 1072, 1102, 1097, 1072, 1103, 32, 45, 32, 1040,
     1085, 1072, 1083, 1080, 1079, 32, 1080, 1090, 1086, 1075, 1086, 1074],
    [127767, 32, 1055, 1086, 1089, 1083, 1077, 1076, 1085, 1103, 1103, 32, 1095, 1077,
     1090, 1074, 1077, 1088, 1090, 1100, 32, 45, 32, 1054, 1090, 1087, 1091, 1089, 1082,
     1072, 1085, 1080, 1077],
    [127768, 32, 1057, 1090, 1072, 1088, 1072, 1103, 32, 1083, 1091, 1085, 1072, 32, 45,
     32, 1055, 1086, 1076, 1075, 1086, 1090, 1086, 1074, 1082, 1072]]"

text \<open>
  \<open>get_moon_phase()\<close> returns \<open>phases[datetime.datetime.now().day % 8]\<close>; the clock's
  reading \<open>now\<close> is an argument of the model.
\<close>

definition get_moon_phase :: "date \<Rightarrow> exn + pystr" where
  "get_moon_phase now = py_getitem phases (day now mod 8)"

text \<open>
  \<open>d.isocalendar()[1]\<close>: the ISO week number, after \<open>_isoweek1monday\<close> and
  \<open>date.isocalendar\<close> of the standard library.
\<close>

definition isoweek1monday :: "int \<Rightarrow> int" where
  "isoweek1monday y =
     (let firstday = toordinal \<lparr>year = y, month = 1, day = 1\<rparr>;
          firstweekday = (firstday + 6) mod 7;
          week1monday = firstday - firstweekday
      in if 3 < firstweekday then week1monday + 7 else week1monday)"

definition iso_week :: "date \<Rightarrow> int" where
  "iso_week d =
     (let week = (toordinal d - isoweek1monday (year d)) div 7
      in if week < 0 then (toordinal d - isoweek1monday (year d - 1)) div 7 + 1
         else if 52 \<le> week \<and> isoweek1monday (year d + 1) \<le> toordinal d then 1
         else week + 1)"

section \<open>The persistence adapter of \<open>src/bot.py\<close>\<close>

text \<open>
  The file \<open>users.db\<close>: the table \<open>users(user_id PRIMARY KEY, birth_date)\<close> as its rows in
  the order a scan of the table returns them, and the table \<open>messages(id AUTOINCREMENT, user_id, text, timestamp)\<close> as
  its rows without the time stamp, which the engine's clock fills in and nothing reads.
\<close>

record database =
  users :: "(int \<times> pystr) list"
  messages :: "(int \<times> int \<times> pystr option) list"

text \<open>
  The SQL statements of the bot. Each model takes a flag \<open>ok\<close>: whether the engine opens
  the file and completes the statement. When it does not, \<open>sqlite3\<close> raises an error and the
  tables stay as they are.
\<close>

text \<open>
  \<^verbatim>\<open>INSERT OR REPLACE INTO users\<close>: a row with the same key is deleted and the new row is
  added at the place of its key, since the engine keeps a table with an integer primary
  key in the order of the keys.
\<close>

definition upsert_row :: "(int \<times> pystr) list \<Rightarrow> int \<Rightarrow> pystr \<Rightarrow> (int \<times> pystr) list" where
  "upsert_row rows uid birth_date =
     insort_key fst (uid, birth_date) (filter (\<lambda>row. fst row \<noteq> uid) rows)"

definition insert_or_replace_user :: "bool \<Rightarrow> database \<Rightarrow> int \<Rightarrow> pystr \<Rightarrow> exn + database" where
  "insert_or_replace_user ok d uid birth_date =
     (if ok then Inr (d\<lparr>users := upsert_row (users d) uid birth_date\<rparr>)
      else Inl OperationalError)"

text \<open>\<^verbatim>\<open>SELECT birth_date FROM users WHERE user_id = ?\<close> with \<open>fetchone()\<close>.\<close>

definition select_birth_date :: "bool \<Rightarrow> database \<Rightarrow> int \<Rightarrow> exn + pystr option" where
  "select_birth_date ok d uid =
     (if ok then Inr (map_option snd (find (\<lambda>row. fst row = uid) (users d)))
      else Inl OperationalError)"

text \<open>\<^verbatim>\<open>SELECT user_id, birth_date FROM users\<close> with \<open>fetchall()\<close>.\<close>

definition select_all_users :: "bool \<Rightarrow> database \<Rightarrow> exn + (int \<times> pystr) list" where
  "select_all_users ok d = (if ok then Inr (users d) else Inl OperationalError)"

text \<open>\<^verbatim>\<open>INSERT INTO messages (user_id, text)\<close>: the next free \<open>id\<close> is assigned.\<close>

definition insert_message :: "bool \<Rightarrow> database \<Rightarrow> int \<Rightarrow> pystr option \<Rightarrow> exn + database" where
  "insert_message ok d uid txt =
     (if ok then Inr (d\<lparr>messages := messages d @ [(foldr max (map fst (messages d)) 0 + 1, uid, txt)]\<rparr>)
      else Inl OperationalError)"

text \<open>\<^verbatim>\<open>SELECT COUNT(*) FROM messages\<close>.\<close>

definition count_messages :: "bool \<Rightarrow> database \<Rightarrow> exn + nat" where
  "count_messages ok d = (if ok then Inr (length (messages d)) else Inl OperationalError)"

text \<open>
  \<^verbatim>\<open>SELECT user_id, COUNT(*) ... GROUP BY user_id ORDER BY msg_count DESC LIMIT 5\<close>. SQL leaves
  the order of users with equal counts open; the model keeps them in order of first message.
\<close>

definition top_talkers :: "bool \<Rightarrow> database \<Rightarrow> exn + (int \<times> nat) list" where
  "top_talkers ok d =
     (if ok then
        Inr (take 5 (sort_key (\<lambda>row. - int (snd row))
          (map (\<lambda>u. (u, length (filter (\<lambda>m. fst (snd m) = u) (messages d))))
               (remdups (map (\<lambda>m. fst (snd m)) (messages d))))))
      else Inl OperationalError)"

section \<open>The bot\<close>

subsection \<open>Configuration, messages and replies\<close>

definition TARGET_YEARS_DISPLAY :: int where "TARGET_YEARS_DISPLAY = 90"

definition WEEKS_IN_YEAR :: int where "WEEKS_IN_YEAR = 52"

text \<open>
  \<open>ADMIN_ID\<close> is \<open>None\<close> when the environment does not set it. \<open>mentions_me\<close> tells whether a
  \<open>@name\<close> after a command names this bot, which the dispatcher asks the platform.
\<close>

record config =
  ADMIN_ID :: "int option"
  mentions_me :: "pystr \<Rightarrow> bool"

text \<open>
  The fields of an incoming \<open>types.Message\<close> that the handlers and the filters read: the
  chat, the sender's id and first name, the text, and the caption of a media message.
\<close>

record message =
  chat_id :: int
  user_id :: int
  first_name :: pystr
  msg_text :: "pystr option"
  msg_caption :: "pystr option"

text \<open>The states of \<open>UserState\<close>; \<open>NONE\<close> is the dispatcher's state of a user with none set.\<close>

datatype fsm_state = NONE | WAITING_BIRTH_DATE | WAITING_NEW_BIRTH_DATE

text \<open>The button labels \<open>BotTexts.BUTTONS\<close>: an emoji, a space and a Russian caption each.\<close>

definition BUTTON_years :: pystr where
  "BUTTON_years =
    [128197, 32, 1061, 1088, 1086, 1085, 1086, 1083, 1086, 1075, 1080, 1103, 32, 1073,
     1099, 1090, 1080, 1103]"

definition BUTTON_hours :: pystr where
  "BUTTON_hours =
    [9203, 32, 1055, 1077, 1089, 1086, 1095, 1085, 1099, 1077, 32, 1084, 1080, 1088, 1099]"

definition BUTTON_progress :: pystr where
  "BUTTON_progress =
    [128220, 32, 1055, 1088, 1086, 1075, 1088, 1077, 1089, 1089, 32, 1078, 1080, 1079,
     1085, 1080]"

definition BUTTON_change_date :: pystr where
  "BUTTON_change_date =
    [10002, 65039, 32, 1055, 1077, 1088, 1077, 1087, 1080, 1089, 1072, 1090, 1100, 32,
     1089, 1091, 1076, 1100, 1073, 1091]"

definition BUTTON_motivation :: pystr where
  "BUTTON_motivation =
    [128302, 32, 1052, 1091, 1076, 1088, 1086, 1089, 1090, 1100, 32, 1101, 1087, 1086, 1093]"

text \<open>
  The texts the bot sends, each as the template it fills and the values filled in. A
  phrase drawn by \<open>random.choice\<close> is given by its index in the list it is drawn from.
\<close>

datatype reply =
    DATE_FORMAT_ERROR
  | INTERNAL_ERROR
  | WELCOME_NEW pystr
  | WELCOME_RETURN pystr pystr pystr int int nat
  | INVALID_DATE_RESPONSE nat
  | BIRTH_DATE_SAVED pystr
  | NEED_START pystr
  | YEARS_REPORT pystr int int int nat
  | HOURS_REPORT pystr int int int nat
  | PROGRESS_REPORT pystr pystr pystr int nat
  | MOTIVATION pystr nat nat
  | ASK_NEW_DATE pystr
  | DATE_UPDATED pystr
  | FALLBACK_PHRASE nat pystr
  | ACCESS_DENIED
  | STATS nat nat "(int \<times> nat) list"
  | STATS_FAILED
  | WEEKLY_REPORT int int int pyfloat pystr nat

datatype markup = main_keyboard | ReplyKeyboardRemove | no_markup

subsection \<open>The world a handler runs in\<close>

text \<open>
  What a handler can change or cause: the database, the dispatcher's memory of each
  user's state (keyed by chat and user), and the trace of what it did to the outside: the
  messages it tried to send (with whether the platform accepted them), the SQL statements
  it executed and the errors it logged.
\<close>

datatype statement =
    INSERT_OR_REPLACE_USER
  | SELECT_BIRTH_DATE
  | SELECT_ALL_USERS
  | INSERT_MESSAGE
  | COUNT_MESSAGES
  | TOP_TALKERS

datatype effect =
    Sent int reply markup bool
  | Sql statement
  | Logged exn

record world =
  db :: database
  fsm :: "int \<times> int \<Rightarrow> fsm_state"
  trace :: "effect list"

text \<open>
  What the outside decides during one unit of work: the date, the \<open>k\<close>-th random draw,
  whether the \<open>k\<close>-th access to the database and the \<open>k\<close>-th send succeed.
\<close>

record env =
  today :: date
  rnd :: "nat \<Rightarrow> nat"
  sql_ok :: "nat \<Rightarrow> bool"
  send_ok :: "nat \<Rightarrow> bool"

text \<open>
  A step of a handler takes the world to a new world and may raise: \<open>Some e\<close> is the
  exception, with the world as it was when it was raised.
\<close>

type_synonym action = "world \<Rightarrow> exn option \<times> world"

definition finish :: action where
  "finish w = (None, w)"

definition raise :: "exn \<Rightarrow> action" where
  "raise e w = (Some e, w)"

definition seq :: "action \<Rightarrow> action \<Rightarrow> action" where
  "seq f g w = (case f w of (None, w') \<Rightarrow> g w' | (Some e, w') \<Rightarrow> (Some e, w'))"

text \<open>\<open>try: body except Exception as e: handler\<close>.\<close>

definition except_Exception :: "action \<Rightarrow> (exn \<Rightarrow> action) \<Rightarrow> action" where
  "except_Exception body handler w =
     (case body w of (None, w') \<Rightarrow> (None, w') | (Some e, w') \<Rightarrow> handler e w')"

definition record_effect :: "effect \<Rightarrow> world \<Rightarrow> world" where
  "record_effect x w = w\<lparr>trace := trace w @ [x]\<rparr>"

definition logger_error :: "exn \<Rightarrow> action" where
  "logger_error e w = (None, record_effect (Logged e) w)"

text \<open>\<open>await message.answer(...)\<close> and \<open>await bot.send_message(chat, ...)\<close>.\<close>

definition send_message :: "bool \<Rightarrow> int \<Rightarrow> reply \<Rightarrow> markup \<Rightarrow> action" where
  "send_message ok chat r k w =
     ((if ok then None else Some TelegramAPIError), record_effect (Sent chat r k ok) w)"

definition answer :: "bool \<Rightarrow> message \<Rightarrow> reply \<Rightarrow> markup \<Rightarrow> action" where
  "answer ok msg r k = send_message ok (chat_id msg) r k"

text \<open>\<open>await state.set_state(...)\<close>; \<open>await state.clear()\<close> is \<open>set_state\<close> to \<open>NONE\<close>.\<close>

definition set_state :: "message \<Rightarrow> fsm_state \<Rightarrow> action" where
  "set_state msg st w = (None, w\<lparr>fsm := (fsm w)((chat_id msg, user_id msg) := st)\<rparr>)"

subsection \<open>The adapter functions\<close>

text \<open>
  Each function of the adapter catches every exception of the engine, logs it and returns
  a default: none of them raises.
\<close>

definition save_user :: "bool \<Rightarrow> int \<Rightarrow> pystr \<Rightarrow> world \<Rightarrow> world" where
  "save_user ok uid birth_date w =
     (case insert_or_replace_user ok (db w) uid birth_date of
        Inr d \<Rightarrow> (record_effect (Sql INSERT_OR_REPLACE_USER) w)\<lparr>db := d\<rparr>
      | Inl e \<Rightarrow> record_effect (Logged e) (record_effect (Sql INSERT_OR_REPLACE_USER) w))"

definition get_user :: "bool \<Rightarrow> int \<Rightarrow> world \<Rightarrow> pystr option \<times> world" where
  "get_user ok uid w =
     (case select_birth_date ok (db w) uid of
        Inr res \<Rightarrow> (res, record_effect (Sql SELECT_BIRTH_DATE) w)
      | Inl e \<Rightarrow> (None, record_effect (Logged e) (record_effect (Sql SELECT_BIRTH_DATE) w)))"

definition get_all_users :: "bool \<Rightarrow> world \<Rightarrow> (int \<times> pystr) list \<times> world" where
  "get_all_users ok w =
     (case select_all_users ok (db w) of
        Inr rows \<Rightarrow> (rows, record_effect (Sql SELECT_ALL_USERS) w)
      | Inl e \<Rightarrow> ([], record_effect (Logged e) (record_effect (Sql SELECT_ALL_USERS) w)))"

definition log_user_message :: "bool \<Rightarrow> int \<Rightarrow> pystr option \<Rightarrow> world \<Rightarrow> world" where
  "log_user_message ok uid txt w =
     (case insert_message ok (db w) uid txt of
        Inr d \<Rightarrow> (record_effect (Sql INSERT_MESSAGE) w)\<lparr>db := d\<rparr>
      | Inl e \<Rightarrow> record_effect (Logged e) (record_effect (Sql INSERT_MESSAGE) w))"

text \<open>
  The truth value of an optional string, as in \<open>if birth_date:\<close>: \<open>None\<close> and the empty
  string are false. \<open>truthy\<close> gives the string when it is true.
\<close>

definition truthy :: "pystr option \<Rightarrow> pystr option" where
  "truthy v = (case v of None \<Rightarrow> None | Some s \<Rightarrow> if s = [] then None else Some s)"

subsection \<open>The handlers\<close>

text \<open>The common \<open>except Exception\<close> clause: log, then answer \<open>INTERNAL_ERROR\<close>.\<close>

definition internal_error :: "env \<Rightarrow> message \<Rightarrow> exn \<Rightarrow> action" where
  "internal_error env msg e = seq (logger_error e) (answer (send_ok env 1) msg INTERNAL_ERROR no_markup)"

definition start_handler :: "env \<Rightarrow> message \<Rightarrow> action" where
  "start_handler env msg =
     except_Exception
       (\<lambda>w. case get_user (sql_ok env 0) (user_id msg) w of (birth_date, w1) \<Rightarrow>
          (case truthy birth_date of
             Some s \<Rightarrow>
               (case validate_date s of
                  Inl e \<Rightarrow> raise e w1
                | Inr None \<Rightarrow>
                    seq (answer (send_ok env 0) msg DATE_FORMAT_ERROR no_markup)
                        (set_state msg WAITING_BIRTH_DATE) w1
                | Inr (Some b_date) \<Rightarrow>
                    (let lived = weeksLived (today env) b_date;
                         targetWeeks = TARGET_YEARS_DISPLAY * WEEKS_IN_YEAR
                     in case int_truediv lived targetWeeks of
                          Inl e \<Rightarrow> raise e w1
                        | Inr progress \<Rightarrow>
                            answer (send_ok env 0) msg
                              (WELCOME_RETURN (first_name msg) s (create_progress_bar progress 10)
                                 lived targetWeeks (rnd env 0 mod 10))
                              main_keyboard w1))
           | None \<Rightarrow>
               seq (answer (send_ok env 0) msg (WELCOME_NEW (first_name msg)) ReplyKeyboardRemove)
                   (set_state msg WAITING_BIRTH_DATE) w1))
       (internal_error env msg)"

definition process_birth_date :: "env \<Rightarrow> message \<Rightarrow> action" where
  "process_birth_date env msg =
     except_Exception
       (\<lambda>w. case msg_text msg of
          None \<Rightarrow> raise AttributeError w
        | Some t \<Rightarrow>
            (let user_input = strip t
             in case validate_date user_input of
                  Inl e \<Rightarrow> raise e w
                | Inr None \<Rightarrow>
                    answer (send_ok env 0) msg (INVALID_DATE_RESPONSE (rnd env 0 mod 12)) no_markup w
                | Inr (Some birth_date) \<Rightarrow>
                    seq (answer (send_ok env 0) msg (BIRTH_DATE_SAVED (first_name msg)) main_keyboard)
                        (set_state msg NONE)
                        (save_user (sql_ok env 0) (user_id msg) user_input w)))
       (internal_error env msg)"

definition handle_years :: "env \<Rightarrow> message \<Rightarrow> action" where
  "handle_years env msg =
     except_Exception
       (\<lambda>w. case get_user (sql_ok env 0) (user_id msg) w of (birth_date_str, w1) \<Rightarrow>
          (case truthy birth_date_str of
             None \<Rightarrow> answer (send_ok env 0) msg (NEED_START (first_name msg)) no_markup w1
           | Some s \<Rightarrow>
               (case validate_date s of
                  Inl e \<Rightarrow> raise e w1
                | Inr None \<Rightarrow> answer (send_ok env 0) msg DATE_FORMAT_ERROR no_markup w1
                | Inr (Some birth_date) \<Rightarrow>
                    (let lived = weeksLived (today env) birth_date;
                         targetWeeks = TARGET_YEARS_DISPLAY * WEEKS_IN_YEAR;
                         weeksRemaining = max 0 (targetWeeks - lived)
                     in answer (send_ok env 0) msg
                          (YEARS_REPORT (first_name msg) lived weeksRemaining targetWeeks
                             (rnd env 0 mod 10))
                          main_keyboard w1))))
       (internal_error env msg)"

definition handle_hours :: "env \<Rightarrow> message \<Rightarrow> action" where
  "handle_hours env msg =
     except_Exception
       (\<lambda>w. case get_user (sql_ok env 0) (user_id msg) w of (birth_date_str, w1) \<Rightarrow>
          (case truthy birth_date_str of
             None \<Rightarrow> answer (send_ok env 0) msg (NEED_START (first_name msg)) no_markup w1
           | Some s \<Rightarrow>
               (case validate_date s of
                  Inl e \<Rightarrow> raise e w1
                | Inr None \<Rightarrow> answer (send_ok env 0) msg DATE_FORMAT_ERROR no_markup w1
                | Inr (Some birth_date) \<Rightarrow>
                    (let lived_days = days_between (today env) birth_date;
                         lived_hours = lived_days * 24
                     in answer (send_ok env 0) msg
                          (HOURS_REPORT (first_name msg) lived_hours (lived_hours div 8760)
                             ((lived_hours mod 8760) div 24) (rnd env 0 mod 10))
                          main_keyboard w1))))
       (internal_error env msg)"

definition handle_progress :: "env \<Rightarrow> message \<Rightarrow> action" where
  "handle_progress env msg =
     except_Exception
       (\<lambda>w. case get_user (sql_ok env 0) (user_id msg) w of (birth_date_str, w1) \<Rightarrow>
          (case truthy birth_date_str of
             None \<Rightarrow> answer (send_ok env 0) msg (NEED_START (first_name msg)) no_markup w1
           | Some s \<Rightarrow>
               (case validate_date s of
                  Inl e \<Rightarrow> raise e w1
                | Inr None \<Rightarrow> answer (send_ok env 0) msg DATE_FORMAT_ERROR no_markup w1
                | Inr (Some birth_date) \<Rightarrow>
                    (let lived = weeksLived (today env) birth_date;
                         targetWeeks = TARGET_YEARS_DISPLAY * WEEKS_IN_YEAR
                     in case int_truediv lived targetWeeks of
                          Inl e \<Rightarrow> raise e w1
                        | Inr progress \<Rightarrow>
                            (case get_moon_phase (today env) of
                               Inl e \<Rightarrow> raise e w1
                             | Inr moon_phase \<Rightarrow>
                                 answer (send_ok env 0) msg
                                   (PROGRESS_REPORT (first_name msg) (create_progress_bar progress 10)
                                      moon_phase (max 0 (targetWeeks - lived)) (rnd env 0 mod 10))
                                   main_keyboard w1)))))
       (internal_error env msg)"

definition handle_motivation :: "env \<Rightarrow> message \<Rightarrow> action" where
  "handle_motivation env msg =
     except_Exception
       (answer (send_ok env 0) msg
          (MOTIVATION (first_name msg) (rnd env 0 mod 10) (rnd env 1 mod 10)) main_keyboard)
       (internal_error env msg)"

definition handle_change_date :: "env \<Rightarrow> message \<Rightarrow> action" where
  "handle_change_date env msg =
     except_Exception
       (seq (answer (send_ok env 0) msg (ASK_NEW_DATE (first_name msg)) ReplyKeyboardRemove)
            (set_state msg WAITING_NEW_BIRTH_DATE))
       (internal_error env msg)"

definition process_new_birth_date :: "env \<Rightarrow> message \<Rightarrow> action" where
  "process_new_birth_date env msg =
     except_Exception
       (\<lambda>w. case msg_text msg of
          None \<Rightarrow> raise AttributeError w
        | Some t \<Rightarrow>
            (let user_input = strip t
             in case validate_date user_input of
                  Inl e \<Rightarrow> raise e w
                | Inr None \<Rightarrow>
                    answer (send_ok env 0) msg (INVALID_DATE_RESPONSE (rnd env 0 mod 12)) no_markup w
                | Inr (Some birth_date) \<Rightarrow>
                    seq (answer (send_ok env 0) msg (DATE_UPDATED (first_name msg)) main_keyboard)
                        (set_state msg NONE)
                        (save_user (sql_ok env 0) (user_id msg) user_input w)))
       (internal_error env msg)"

text \<open>\<open>fallback_handler\<close> has no \<open>try\<close>: a failed send escapes it.\<close>

definition fallback_handler :: "env \<Rightarrow> message \<Rightarrow> action" where
  "fallback_handler env msg w =
     answer (send_ok env 0) msg (FALLBACK_PHRASE (rnd env 0 mod 4) (first_name msg)) no_markup
       (log_user_message (sql_ok env 0) (user_id msg) (msg_text msg) w)"

text \<open>
  \<open>admin_stats_handler\<close>: the guard \<open>not ADMIN_ID or message.from_user.id != ADMIN_ID\<close> comes
  before the \<open>try\<close>; the two aggregate queries are made with \<open>sqlite3\<close> directly.
\<close>

definition execute :: "statement \<Rightarrow> exn + 'a \<Rightarrow> ('a \<Rightarrow> action) \<Rightarrow> action" where
  "execute st res k w =
     (case res of
        Inl e \<Rightarrow> raise e (record_effect (Sql st) w)
      | Inr v \<Rightarrow> k v (record_effect (Sql st) w))"

definition admin_stats_handler :: "config \<Rightarrow> env \<Rightarrow> message \<Rightarrow> action" where
  "admin_stats_handler cfg env msg =
     (if ADMIN_ID cfg = None \<or> ADMIN_ID cfg = Some 0 \<or> Some (user_id msg) \<noteq> ADMIN_ID cfg
      then answer (send_ok env 0) msg ACCESS_DENIED no_markup
      else except_Exception
        (\<lambda>w. case get_all_users (sql_ok env 0) w of (rows, w1) \<Rightarrow>
           execute COUNT_MESSAGES (count_messages (sql_ok env 1) (db w1))
             (\<lambda>total_messages w2.
                execute TOP_TALKERS (top_talkers (sql_ok env 2) (db w2))
                  (\<lambda>top_users.
                     answer (send_ok env 0) msg (STATS (length rows) total_messages top_users)
                       no_markup) w2) w1)
        (\<lambda>e. seq (logger_error e) (answer (send_ok env 1) msg STATS_FAILED no_markup)))"

subsection \<open>The dispatcher\<close>

text \<open>
  The filter \<open>Command(names)\<close> of the platform library. It reads \<open>message.text or
  message.caption\<close>: the first word is \<open>/\<close>, a command name of the list and, optionally, \<open>@\<close>
  and a name that must be the bot's.
\<close>

definition Command :: "pystr list \<Rightarrow> config \<Rightarrow> message \<Rightarrow> bool" where
  "Command names cfg msg =
     (case (case truthy (msg_text msg) of Some t \<Rightarrow> Some t | None \<Rightarrow> msg_caption msg) of
        None \<Rightarrow> False
      | Some t \<Rightarrow>
          (case takeWhile (\<lambda>c. \<not> isspace c) (dropWhile isspace t) of
             [] \<Rightarrow> False
           | prefix # rest \<Rightarrow>
               prefix = 47
               \<and> (drop (Suc (length (takeWhile (\<lambda>c. c \<noteq> 64) rest))) rest = []
                  \<or> mentions_me cfg (drop (Suc (length (takeWhile (\<lambda>c. c \<noteq> 64) rest))) rest))
               \<and> takeWhile (\<lambda>c. c \<noteq> 64) rest \<in> set names))"

text \<open>
  The handlers in the order the module registers them with \<open>@dp.message(...)\<close>, each with
  its filter: a command, a state of the user, or a text equal to a button label.
  \<open>fallback_handler\<close> is registered with no filter, before \<open>admin_stats_handler\<close>.
\<close>

datatype handler =
    H_start_handler
  | H_process_birth_date
  | H_handle_years
  | H_handle_hours
  | H_handle_progress
  | H_handle_motivation
  | H_handle_change_date
  | H_process_new_birth_date
  | H_fallback_handler
  | H_admin_stats_handler

definition handlers :: "(handler \<times> (config \<Rightarrow> fsm_state \<Rightarrow> message \<Rightarrow> bool)) list" where
  "handlers =
    [(H_start_handler, \<lambda>cfg st msg. Command [ascii ''start'', ascii ''help''] cfg msg),
     (H_process_birth_date, \<lambda>cfg st msg. st = WAITING_BIRTH_DATE),
     (H_handle_years, \<lambda>cfg st msg. msg_text msg = Some BUTTON_years),
     (H_handle_hours, \<lambda>cfg st msg. msg_text msg = Some BUTTON_hours),
     (H_handle_progress, \<lambda>cfg st msg. msg_text msg = Some BUTTON_progress),
     (H_handle_motivation, \<lambda>cfg st msg. msg_text msg = Some BUTTON_motivation),
     (H_handle_change_date, \<lambda>cfg st msg. msg_text msg = Some BUTTON_change_date),
     (H_process_new_birth_date, \<lambda>cfg st msg. st = WAITING_NEW_BIRTH_DATE),
     (H_fallback_handler, \<lambda>cfg st msg. True),
     (H_admin_stats_handler, \<lambda>cfg st msg. Command [ascii ''superstats''] cfg msg)]"

text \<open>The dispatcher calls the first registered handler whose filter accepts the message.\<close>

definition dispatch :: "config \<Rightarrow> fsm_state \<Rightarrow> message \<Rightarrow> handler option" where
  "dispatch cfg st msg = map_option fst (find (\<lambda>h. snd h cfg st msg) handlers)"

definition run_handler :: "config \<Rightarrow> env \<Rightarrow> handler \<Rightarrow> message \<Rightarrow> action" where
  "run_handler cfg env h msg =
     (case h of
        H_start_handler \<Rightarrow> start_handler env msg
      | H_process_birth_date \<Rightarrow> process_birth_date env msg
      | H_handle_years \<Rightarrow> handle_years env msg
      | H_handle_hours \<Rightarrow> handle_hours env msg
      | H_handle_progress \<Rightarrow> handle_progress env msg
      | H_handle_motivation \<Rightarrow> handle_motivation env msg
      | H_handle_change_date \<Rightarrow> handle_change_date env msg
      | H_process_new_birth_date \<Rightarrow> process_new_birth_date env msg
      | H_fallback_handler \<Rightarrow> fallback_handler env msg
      | H_admin_stats_handler \<Rightarrow> admin_stats_handler cfg env msg)"

definition feed_update :: "config \<Rightarrow> env \<Rightarrow> message \<Rightarrow> action" where
  "feed_update cfg env msg w =
     (case dispatch cfg (fsm w (chat_id msg, user_id msg)) msg of
        None \<Rightarrow> finish w
      | Some h \<Rightarrow> run_handler cfg env h msg w)"

subsection \<open>The weekly job\<close>

text \<open>
  \<open>send_weekly_update\<close> for the \<open>i\<close>-th stored user: everything, the parse of the stored
  date and the send, is inside one \<open>try\<close> whose \<open>except Exception\<close> only logs.
\<close>

definition send_weekly_update :: "env \<Rightarrow> nat \<Rightarrow> int \<Rightarrow> pystr \<Rightarrow> action" where
  "send_weekly_update env i uid birth_date =
     except_Exception
       (\<lambda>w. case strptime birth_date of
          Inl e \<Rightarrow> raise e w
        | Inr birth_date_obj \<Rightarrow>
            (let lived = weeksLived (today env) birth_date_obj;
                 targetWeeks = TARGET_YEARS_DISPLAY * WEEKS_IN_YEAR
             in case int_truediv lived targetWeeks of
                  Inl e \<Rightarrow> raise e w
                | Inr progress \<Rightarrow>
                    (case get_moon_phase (today env) of
                       Inl e \<Rightarrow> raise e w
                     | Inr moon_phase \<Rightarrow>
                         send_message (send_ok env i) uid
                           (WEEKLY_REPORT (iso_week (today env)) lived targetWeeks progress
                              moon_phase (rnd env i mod 10))
                           no_markup w)))
       logger_error"

text \<open>The loop \<open>for user_id, birth_date in users\<close>, from the \<open>i\<close>-th user on.\<close>

fun send_all :: "env \<Rightarrow> nat \<Rightarrow> (int \<times> pystr) list \<Rightarrow> action" where
  "send_all env i [] = finish"
| "send_all env i (row # rows) =
     seq (send_weekly_update env i (fst row) (snd row)) (send_all env (Suc i) rows)"

definition weekly_updates_task :: "env \<Rightarrow> action" where
  "weekly_updates_task env =
     except_Exception
       (\<lambda>w. case get_all_users (sql_ok env 0) w of (rows, w1) \<Rightarrow> send_all env 0 rows w1)
       logger_error"

section \<open>The legacy module \<open>src/database.py\<close>\<close>

text \<open>
  \<open>save_user\<close> of \<open>src/database.py\<close>, on the rows \<open>(user_id, birth_date)\<close> of its table (the
  column \<open>created_at\<close> is filled by the engine and read nowhere). It connects, checks the
  date with \<open>strptime\<close> and re-raises a \<open>ValueError\<close>, then writes; nothing is caught, so an
  error of the engine escapes as well.
\<close>

definition legacy_save_user ::
    "bool \<Rightarrow> bool \<Rightarrow> (int \<times> pystr) list \<Rightarrow> int \<Rightarrow> pystr \<Rightarrow> exn option \<times> (int \<times> pystr) list" where
  "legacy_save_user connect_ok execute_ok rows uid birth_date =
     (if \<not> connect_ok then (Some OperationalError, rows)
      else case strptime birth_date of
             Inl e \<Rightarrow> (if e = ValueError then (Some ValueError, rows) else (Some e, rows))
           | Inr d \<Rightarrow>
               if execute_ok then (None, upsert_row rows uid birth_date)
               else (Some OperationalError, rows))"

text \<open>\<open>get_user\<close> of \<open>src/database.py\<close>.\<close>

definition legacy_get_user :: "bool \<Rightarrow> (int \<times> pystr) list \<Rightarrow> int \<Rightarrow> exn + pystr option" where
  "legacy_get_user ok rows uid =
     (if ok then Inr (map_option snd (find (\<lambda>row. fst row = uid) rows))
      else Inl OperationalError)"

section \<open>Notions the properties are stated with\<close>

text \<open>A day of the calendar: the fields the constructor \<open>date\<close> accepts.\<close>

definition valid_date :: "date \<Rightarrow> bool" where
  "valid_date d =
     (MINYEAR \<le> year d \<and> year d \<le> MAXYEAR \<and> 1 \<le> month d \<and> month d \<le> 12
      \<and> 1 \<le> day d \<and> day d \<le> days_in_month (year d) (month d))"

text \<open>\<open>later a b\<close>: the day \<open>a\<close> comes after the day \<open>b\<close> in the calendar.\<close>

definition later :: "date \<Rightarrow> date \<Rightarrow> bool" where
  "later a b =
     (year b < year a
      \<or> (year a = year b \<and> (month b < month a \<or> (month a = month b \<and> day b < day a))))"

text \<open>
  What a trace tells about a run: the chats a send was tried to, in order, whether or not
  the platform accepted it, and the exceptions that were logged.
\<close>

definition attempted :: "effect list \<Rightarrow> int list" where
  "attempted tr = concat (map (\<lambda>x. case x of Sent chat r k ok \<Rightarrow> [chat] | _ \<Rightarrow> []) tr)"

definition logged :: "effect list \<Rightarrow> exn list" where
  "logged tr = concat (map (\<lambda>x. case x of Logged e \<Rightarrow> [e] | _ \<Rightarrow> []) tr)"

text \<open>Whether \<open>strptime\<close> reads a stored string as a date.\<close>

definition parses :: "pystr \<Rightarrow> bool" where
  "parses s = (case strptime s of Inl e \<Rightarrow> False | Inr d \<Rightarrow> True)"

text \<open>
  What the weekly job logs for the \<open>i\<close>-th stored user: nothing when the report is sent,
  the platform's error when the send fails, \<open>ValueError\<close> when the stored string is no date.
\<close>

definition weekly_failure :: "env \<Rightarrow> nat \<times> int \<times> pystr \<Rightarrow> exn list" where
  "weekly_failure env x =
     (case x of (i, uid, birth_date) \<Rightarrow>
        if parses birth_date then (if send_ok env i then [] else [TelegramAPIError])
        else [ValueError])"

text \<open>
  The states of the system: it starts with the empty tables \<open>create_database\<close> makes and
  with no user's state set; then it handles any message, runs the weekly job, or restarts
  and loses the users' states, in any order and whatever the outside decides.
\<close>

definition initial_world :: world where
  "initial_world = \<lparr>db = \<lparr>users = [], messages = []\<rparr>, fsm = (\<lambda>k. NONE), trace = []\<rparr>"

inductive reachable :: "config \<Rightarrow> world \<Rightarrow> bool" for cfg :: config where
  initial: "reachable cfg initial_world"
| update: "reachable cfg w \<Longrightarrow> reachable cfg (snd (feed_update cfg env msg w))"
| weekly: "reachable cfg w \<Longrightarrow> reachable cfg (snd (weekly_updates_task env w))"
| restart: "reachable cfg w \<Longrightarrow> reachable cfg (w\<lparr>fsm := (\<lambda>k. NONE)\<rparr>)"

text \<open>
  The glyph counts of a rendered bar: the filled glyphs it starts with, and the empty
  glyphs that follow them.
\<close>

definition filled_count :: "pystr \<Rightarrow> nat" where
  "filled_count bar = length (takeWhile (\<lambda>c. c = FILLED) bar)"

definition empty_count :: "pystr \<Rightarrow> nat" where
  "empty_count bar = length (takeWhile (\<lambda>c. c = EMPTY) (dropWhile (\<lambda>c. c = FILLED) bar))"

text \<open>The number a float stands for.\<close>

definition float_value :: "pyfloat \<Rightarrow> rat" where
  "float_value x =
     (case x of Float m e \<Rightarrow> if 0 \<le> e then of_int (m * 2 ^ nat e) else of_int m / 2 ^ nat (- e))"

text \<open>
  The exact pattern \<open>DD.MM.YYYY\<close>: ten characters, two ASCII digits, a dot, two ASCII
  digits, a dot and four ASCII digits.
\<close>

definition ascii_digit :: "nat \<Rightarrow> bool" where
  "ascii_digit c = (48 \<le> c \<and> c \<le> 57)"

definition is_ddmmyyyy :: "pystr \<Rightarrow> bool" where
  "is_ddmmyyyy s =
     (case s of
        [d1, d2, p1, m1, m2, p2, y1, y2, y3, y4] \<Rightarrow>
          p1 = 46 \<and> p2 = 46 \<and> list_all ascii_digit [d1, d2, m1, m2, y1, y2, y3, y4]
      | _ \<Rightarrow> False)"

text \<open>The text \<open>DD.MM.YYYY\<close> of a date: its fields in decimal, padded with zeros.\<close>

definition two_digits :: "int \<Rightarrow> pystr" where
  "two_digits n = [48 + nat (n div 10), 48 + nat (n mod 10)]"

definition four_digits :: "int \<Rightarrow> pystr" where
  "four_digits n =
     [48 + nat (n div 1000), 48 + nat (n div 100 mod 10), 48 + nat (n div 10 mod 10),
      48 + nat (n mod 10)]"

definition ddmmyyyy :: "date \<Rightarrow> pystr" where
  "ddmmyyyy d = two_digits (day d) @ [46] @ two_digits (month d) @ [46] @ four_digits (year d)"

text \<open>
  The texts \<open>strptime\<close> reads as a day, a month and a year. A day is one digit 1 to 9, or
  two characters: 3 and 0 or 1; 1 or 2 and any decimal digit; 0 and a digit 1 to 9; a
  space and a digit 1 to 9. A month is one digit 1 to 9, or 1 and a digit 0 to 2, or 0 and
  a digit 1 to 9. A year is four decimal digits. "Any decimal digit" is any of Unicode.
\<close>

definition day_text :: "pystr \<Rightarrow> bool" where
  "day_text t =
     (case t of
        [a] \<Rightarrow> 49 \<le> a \<and> a \<le> 57
      | [a, b] \<Rightarrow>
          (a = 51 \<and> 48 \<le> b \<and> b \<le> 49) \<or> (49 \<le> a \<and> a \<le> 50 \<and> isdecimal b)
          \<or> (a = 48 \<and> 49 \<le> b \<and> b \<le> 57) \<or> (a = 32 \<and> 49 \<le> b \<and> b \<le> 57)
      | _ \<Rightarrow> False)"

definition month_text :: "pystr \<Rightarrow> bool" where
  "month_text t =
     (case t of
        [a] \<Rightarrow> 49 \<le> a \<and> a \<le> 57
      | [a, b] \<Rightarrow> (a = 49 \<and> 48 \<le> b \<and> b \<le> 50) \<or> (a = 48 \<and> 49 \<le> b \<and> b \<le> 57)
      | _ \<Rightarrow> False)"

definition year_text :: "pystr \<Rightarrow> bool" where
  "year_text t = (length t = 4 \<and> list_all isdecimal t)"

section \<open>Sample inputs\<close>

text \<open>
  Concrete inputs for the examples: an outside where every access and every send succeeds,
  a configuration with user 7 as the admin, a message of user 1 with a given ASCII text,
  and a database with three stored users.
\<close>

definition sample_env :: env where
  "sample_env = \<lparr>today = \<lparr>year = 2026, month = 11, day = 4\<rparr>, rnd = (\<lambda>k. 0),
     sql_ok = (\<lambda>k. True), send_ok = (\<lambda>k. True)\<rparr>"

definition sample_config :: config where
  "sample_config = \<lparr>ADMIN_ID = Some 7, mentions_me = (\<lambda>s. False)\<rparr>"

definition sample_msg :: "string \<Rightarrow> message" where
  "sample_msg s = \<lparr>chat_id = 1, user_id = 1, first_name = ascii ''Ann'', msg_text = Some (ascii s),
     msg_caption = None\<rparr>"

definition three_users :: world where
  "three_users = initial_world\<lparr>db := \<lparr>users = [(1, ascii ''15.05.1990''), (2, ascii ''01.01.2000''),
     (3, ascii ''31.12.1999'')], messages = []\<rparr>\<rparr>"

section \<open>Properties\<close>

lemma length_phases: "length phases = 8"
  by (simp add: phases_def)

text \<open>
  Claim C9. The list of moon-phase labels has exactly eight entries, and for every day of
  the month (indeed for every integer the clock could report) the index \<open>day mod 8\<close> lies
  within the list: \<open>get_moon_phase\<close> raises no \<open>IndexError\<close> and returns the label at that
  index, which is one of the eight enumerated labels.
\<close>

theorem get_moon_phase_in_bounds:
  "length phases = 8
   \<and> 0 \<le> day now mod 8 \<and> day now mod 8 < int (length phases)
   \<and> get_moon_phase now = Inr (phases ! nat (day now mod 8))
   \<and> phases ! nat (day now mod 8) \<in> set phases"
proof -
  have b: "0 \<le> day now mod 8" "day now mod 8 < 8"
    by simp_all
  then have n: "nat (day now mod 8) < length phases"
    by (simp add: length_phases)
  have "get_moon_phase now = Inr (phases ! nat (day now mod 8))"
    using b by (simp add: get_moon_phase_def py_getitem_def length_phases)
  with b n show ?thesis
    by (simp add: length_phases)
qed

subsection \<open>Weeks lived\<close>

lemma div_pred:
  fixes y k :: int
  assumes "0 < k"
  shows "y div k = (y - 1) div k + (if y mod k = 0 then 1 else 0)"
proof (cases "y mod k = 0")
  case True
  have "y - 1 = k * (y div k - 1) + (k - 1)"
    using True mult_div_mod_eq [of k y] by (simp add: algebra_simps)
  from int_div_pos_eq [OF this] assms have "(y - 1) div k = y div k - 1"
    by simp
  with True show ?thesis by simp
next
  case False
  have "0 \<le> y mod k" "y mod k < k"
    using assms by simp_all
  with False have r: "0 \<le> y mod k - 1" "y mod k - 1 < k"
    by simp_all
  have "y - 1 = k * (y div k) + (y mod k - 1)"
    using mult_div_mod_eq [of k y] by simp
  from int_div_pos_eq [OF this r] False show ?thesis
    by simp
qed

lemma days_before_year_Suc:
  "days_before_year (y + 1) = days_before_year y + (if is_leap y then 366 else 365)"
  using div_pred [of 4 y] div_pred [of 100 y] div_pred [of 400 y]
  by (auto simp: days_before_year_def is_leap_def algebra_simps mod_eq_0_iff_dvd)

lemma days_before_year_mono:
  assumes "y < y'"
  shows "days_before_year y + 365 \<le> days_before_year y'"
proof -
  have "days_before_year y + 365 * int n \<le> days_before_year (y + int n)" for n
  proof (induction n)
    case 0
    then show ?case by simp
  next
    case (Suc n)
    have "days_before_year (y + int n) + 365 \<le> days_before_year ((y + int n) + 1)"
      by (simp add: days_before_year_Suc)
    also have "(y + int n) + 1 = y + int (Suc n)"
      by simp
    finally show ?case using Suc by simp
  qed
  from this [of "nat (y' - y)"] assms have "days_before_year y + 365 * (y' - y) \<le> days_before_year y'"
    by simp
  moreover have "365 \<le> 365 * (y' - y)" using assms by simp
  ultimately show ?thesis by linarith
qed

lemma month_cases:
  assumes "1 \<le> (m::int)" "m \<le> 12"
  shows "m = 1 \<or> m = 2 \<or> m = 3 \<or> m = 4 \<or> m = 5 \<or> m = 6 \<or> m = 7 \<or> m = 8 \<or> m = 9 \<or> m = 10
    \<or> m = 11 \<or> m = 12"
  using assms by arith

lemma days_in_month_bounds:
  assumes "1 \<le> m" "m \<le> 12"
  shows "28 \<le> days_in_month y m" and "days_in_month y m \<le> 31"
  using month_cases [OF assms]
  by (elim disjE; simp add: days_in_month_def DAYS_IN_MONTH_def)+

lemma days_before_month_Suc:
  assumes "1 \<le> m" "m \<le> 11"
  shows "days_before_month y (m + 1) = days_before_month y m + days_in_month y m"
proof -
  from assms have "m = 1 \<or> m = 2 \<or> m = 3 \<or> m = 4 \<or> m = 5 \<or> m = 6 \<or> m = 7 \<or> m = 8 \<or> m = 9 \<or> m = 10
    \<or> m = 11"
    by arith
  then show ?thesis
    by (elim disjE; simp add: days_before_month_def DAYS_BEFORE_MONTH_def days_in_month_def DAYS_IN_MONTH_def)
qed

lemma days_before_month_mono:
  assumes "1 \<le> m" "m \<le> m'" "m' \<le> 12"
  shows "days_before_month y m \<le> days_before_month y m'"
proof -
  have "m + int n \<le> 12 \<Longrightarrow> days_before_month y m \<le> days_before_month y (m + int n)" for n
  proof (induction n)
    case 0
    then show ?case by simp
  next
    case (Suc n)
    then have le: "days_before_month y m \<le> days_before_month y (m + int n)" and b: "m + int n \<le> 11"
      by simp_all
    have "1 \<le> m + int n" using assms by simp
    from days_before_month_Suc [OF this b, of y] days_in_month_bounds(1) [OF this, of y] b
    have "days_before_month y (m + int n) \<le> days_before_month y (m + int n + 1)"
      by simp
    also have "m + int n + 1 = m + int (Suc n)" by simp
    finally show ?case using le by simp
  qed
  from this [of "nat (m' - m)"] assms show ?thesis by simp
qed

lemma days_before_month_bounds:
  assumes "1 \<le> m" "m \<le> 12"
  shows "0 \<le> days_before_month y m"
    and "days_before_month y m + days_in_month y m \<le> (if is_leap y then 366 else 365)"
  using month_cases [OF assms]
  by (elim disjE; simp add: days_before_month_def DAYS_BEFORE_MONTH_def days_in_month_def DAYS_IN_MONTH_def)+

lemma toordinal_later:
  assumes a: "valid_date a" and b: "valid_date b" and l: "later a b"
  shows "toordinal b < toordinal a"
proof -
  from a have ma: "1 \<le> month a" "month a \<le> 12" and da: "1 \<le> day a" "day a \<le> days_in_month (year a) (month a)"
    by (simp_all add: valid_date_def)
  from b have mb: "1 \<le> month b" "month b \<le> 12" and db: "1 \<le> day b" "day b \<le> days_in_month (year b) (month b)"
    by (simp_all add: valid_date_def)
  from l consider (y) "year b < year a" | (m) "year a = year b" "month b < month a"
    | (d) "year a = year b" "month a = month b" "day b < day a"
    by (auto simp: later_def)
  then show ?thesis
  proof cases
    case y
    have "days_before_year (year b + 1) \<le> days_before_year (year a)"
    proof (cases "year b + 1 = year a")
      case True
      then show ?thesis by simp
    next
      case False
      with y have "year b + 1 < year a" by simp
      from days_before_year_mono [OF this] show ?thesis by simp
    qed
    moreover have "days_before_month (year b) (month b) + day b \<le> (if is_leap (year b) then 366 else 365)"
      using days_before_month_bounds(2) [OF mb, of "year b"] db by (simp split: if_splits)
    moreover have "1 \<le> days_before_month (year a) (month a) + day a"
      using days_before_month_bounds(1) [OF ma, of "year a"] da by simp
    ultimately show ?thesis
      by (simp add: toordinal_def days_before_year_Suc split: if_splits)
  next
    case m
    then have "month b \<le> 11" "month b + 1 \<le> month a" using ma by simp_all
    from days_before_month_Suc [OF mb(1) this(1), of "year b"]
      days_before_month_mono [OF _ this(2) ma(2), of "year b"] mb
    have "days_before_month (year b) (month b) + days_in_month (year b) (month b)
        \<le> days_before_month (year b) (month a)"
      by simp
    with m db da show ?thesis
      by (simp add: toordinal_def)
  next
    case d
    then show ?thesis by (simp add: toordinal_def)
  qed
qed

text \<open>
  Claim C7. For every birth date and every date of today, \<open>weeksLived\<close> is the floor of the
  number of days between them divided by 7: it is the one integer \<open>w\<close> with
  \<open>7 * w \<le> days < 7 * w + 7\<close>. It is 0 when the birth date is today and 1 when the birth
  date is seven days before today. Nothing guards a birth date in the future: for two
  days of the calendar with the birth date the later one, the result is negative.
\<close>

theorem weeksLived_floor:
  "7 * weeksLived t b \<le> days_between t b \<and> days_between t b < 7 * weeksLived t b + 7
   \<and> weeksLived t t = 0
   \<and> (days_between t b = 7 \<longrightarrow> weeksLived t b = 1)
   \<and> (valid_date t \<and> valid_date b \<and> later b t \<longrightarrow> weeksLived t b < 0)"
proof -
  have "7 * weeksLived t b \<le> days_between t b" "days_between t b < 7 * weeksLived t b + 7"
    unfolding weeksLived_def by presburger+
  moreover have "weeksLived t t = 0"
    by (simp add: weeksLived_def days_between_def)
  moreover have "days_between t b = 7 \<longrightarrow> weeksLived t b = 1"
    by (simp add: weeksLived_def)
  moreover have "weeksLived t b < 0" if "valid_date t" "valid_date b" "later b t"
  proof -
    from toordinal_later [OF that(2) that(1) that(3)] have "days_between t b < 0"
      by (simp add: days_between_def)
    then show ?thesis
      unfolding weeksLived_def by presburger
  qed
  ultimately show ?thesis by blast
qed

theorem weeksLived_floor_witness:
  "days_between \<lparr>year = 2000, month = 1, day = 8\<rparr> \<lparr>year = 2000, month = 1, day = 1\<rparr> = 7
   \<and> weeksLived \<lparr>year = 2000, month = 1, day = 8\<rparr> \<lparr>year = 2000, month = 1, day = 1\<rparr> = 1
   \<and> valid_date \<lparr>year = 2000, month = 1, day = 1\<rparr>
   \<and> valid_date \<lparr>year = 2000, month = 1, day = 8\<rparr>
   \<and> later \<lparr>year = 2000, month = 1, day = 8\<rparr> \<lparr>year = 2000, month = 1, day = 1\<rparr>
   \<and> weeksLived \<lparr>year = 2000, month = 1, day = 1\<rparr> \<lparr>year = 2000, month = 1, day = 8\<rparr> < 0"
proof -
  have d: "days_between \<lparr>year = 2000, month = 1, day = 8\<rparr> \<lparr>year = 2000, month = 1, day = 1\<rparr> = 7"
    by (simp add: days_between_def toordinal_def)
  have v: "valid_date \<lparr>year = 2000, month = 1, day = 1\<rparr>" "valid_date \<lparr>year = 2000, month = 1, day = 8\<rparr>"
    by (simp_all add: valid_date_def MINYEAR_def MAXYEAR_def days_in_month_def DAYS_IN_MONTH_def)
  have l: "later \<lparr>year = 2000, month = 1, day = 8\<rparr> \<lparr>year = 2000, month = 1, day = 1\<rparr>"
    by (simp add: later_def)
  from d v l
    weeksLived_floor [of "\<lparr>year = 2000, month = 1, day = 8\<rparr>" "\<lparr>year = 2000, month = 1, day = 1\<rparr>"]
    weeksLived_floor [of "\<lparr>year = 2000, month = 1, day = 1\<rparr>" "\<lparr>year = 2000, month = 1, day = 8\<rparr>"]
  show ?thesis by blast
qed

subsection \<open>The users table\<close>

lemma find_insort_key:
  "P x \<Longrightarrow> list_all (\<lambda>y. \<not> P y) ys \<Longrightarrow> find P (insort_key f x ys) = Some x"
  by (induction ys) simp_all

lemma filter_insort_key:
  "P x \<Longrightarrow> list_all (\<lambda>y. \<not> P y) ys \<Longrightarrow> filter P (insort_key f x ys) = [x]"
  by (induction ys) (auto simp: filter_empty_conv list_all_iff)

lemma distinct_map_insort_key:
  "distinct (map f (insort_key f x ys)) \<longleftrightarrow> f x \<notin> f ` set ys \<and> distinct (map f ys)"
  by (induction ys) (auto simp: set_insort_key)

lemma others_filtered: "list_all (\<lambda>y. \<not> fst y = uid) (filter (\<lambda>row. fst row \<noteq> uid) rows)"
  by (simp add: list_all_iff)

lemma find_upsert_row:
  "find (\<lambda>row. fst row = uid) (upsert_row rows uid s) = Some (uid, s)"
  unfolding upsert_row_def by (rule find_insort_key [OF _ others_filtered]) simp

lemma filter_upsert_row:
  "filter (\<lambda>row. fst row = uid) (upsert_row rows uid s) = [(uid, s)]"
  unfolding upsert_row_def by (rule filter_insort_key [OF _ others_filtered]) simp

lemma distinct_upsert_row:
  "distinct (map fst rows) \<Longrightarrow> distinct (map fst (upsert_row rows uid s))"
  by (auto simp: upsert_row_def distinct_map_insort_key distinct_map_filter)

lemma db_save_user_ok:
  "db (save_user True uid s w) = (db w)\<lparr>users := upsert_row (users (db w)) uid s\<rparr>"
  by (simp add: save_user_def insert_or_replace_user_def record_effect_def)

lemma db_save_user_failed:
  "db (save_user False uid s w) = db w"
  by (simp add: save_user_def insert_or_replace_user_def record_effect_def)

lemma get_user_ok:
  "fst (get_user True uid w) = map_option snd (find (\<lambda>row. fst row = uid) (users (db w)))"
  by (simp add: get_user_def select_birth_date_def)

text \<open>
  Claim C5. For every user id and every string, when the engine completes the statements
  (the flags \<open>True\<close>): \<open>get_user\<close> right after \<open>save_user\<close> returns exactly the string saved;
  after two saves for the same id the table holds one row for that id, with the second
  string, and \<open>get_user\<close> returns the second string. Whether or not the engine completes
  it, \<open>save_user\<close> keeps the user ids of the table distinct: at most one row per user.
\<close>

theorem save_user_then_get_user:
  "fst (get_user True uid (save_user True uid s w)) = Some s
   \<and> filter (\<lambda>row. fst row = uid) (users (db (save_user True uid s' (save_user True uid s w))))
       = [(uid, s')]
   \<and> fst (get_user True uid (save_user True uid s' (save_user True uid s w))) = Some s'
   \<and> (distinct (map fst (users (db w))) \<longrightarrow>
        distinct (map fst (users (db (save_user ok uid s w)))))"
proof -
  have "distinct (map fst (users (db (save_user ok uid s w))))" if "distinct (map fst (users (db w)))"
    using that by (cases ok) (simp_all add: db_save_user_ok db_save_user_failed distinct_upsert_row)
  then show ?thesis
    by (simp add: get_user_ok db_save_user_ok find_upsert_row filter_upsert_row)
qed

theorem save_user_then_get_user_witness:
  "distinct (map fst (users (db \<lparr>db = \<lparr>users = [(1, ascii ''01.01.2000'')], messages = []\<rparr>,
       fsm = (\<lambda>k. NONE), trace = []\<rparr>)))
   \<and> distinct (map fst (users (db (save_user True 1 (ascii ''15.05.1990'')
       \<lparr>db = \<lparr>users = [(1, ascii ''01.01.2000'')], messages = []\<rparr>, fsm = (\<lambda>k. NONE), trace = []\<rparr>))))
   \<and> fst (get_user True 1 (save_user True 1 (ascii ''15.05.1990'')
       \<lparr>db = \<lparr>users = [(1, ascii ''01.01.2000'')], messages = []\<rparr>, fsm = (\<lambda>k. NONE), trace = []\<rparr>))
       = Some (ascii ''15.05.1990'')"
  using save_user_then_get_user [of 1 "ascii ''15.05.1990''"
      "\<lparr>db = \<lparr>users = [(1, ascii ''01.01.2000'')], messages = []\<rparr>, fsm = (\<lambda>k. NONE), trace = []\<rparr>"
      "ascii ''15.05.1990''" True]
  by simp

subsection \<open>The legacy \<open>save_user\<close>\<close>

text \<open>The definitions that evaluate \<open>validate_date\<close> on a given text.\<close>

lemmas date_eval = validate_date_def strptime_def format_regex_matches_def rx_group_def
  re_d_def re_m_def re_Y_def isdecimal_def decimal_value_def decimal_zeros_def py_int_def
  strip_def isspace_def new_date_def MINYEAR_def MAXYEAR_def days_in_month_def
  DAYS_IN_MONTH_def is_leap_def ascii_def

lemma validate_date_None_iff: "validate_date s = Inr None \<longleftrightarrow> strptime s = Inl ValueError"
  by (auto simp: validate_date_def split: sum.splits if_splits)

text \<open>
  Claim C10. For every string that \<open>strptime\<close> does not parse with \<open>%d.%m.%Y\<close>, the legacy
  \<open>save_user\<close>, once connected, raises \<open>ValueError\<close> and leaves the rows of the table as
  they were, whether or not the write would have succeeded; with or without a connection
  an error escapes to the caller and the rows are unchanged. The adapter of \<open>src/bot.py\<close>
  differs: its \<open>save_user\<close> checks nothing and stores the same string.
\<close>

theorem legacy_save_user_rejects:
  "validate_date s = Inr None \<longrightarrow>
     legacy_save_user True ok rows uid s = (Some ValueError, rows)
     \<and> fst (legacy_save_user c ok rows uid s) \<noteq> None
     \<and> snd (legacy_save_user c ok rows uid s) = rows
     \<and> users (db (save_user True uid s w)) = upsert_row (users (db w)) uid s"
  by (auto simp: validate_date_None_iff legacy_save_user_def db_save_user_ok)

theorem legacy_save_user_rejects_witness:
  "validate_date (ascii ''not-a-date'') = Inr None
   \<and> legacy_save_user True True [(1, ascii ''01.01.2000'')] 1 (ascii ''not-a-date'')
       = (Some ValueError, [(1, ascii ''01.01.2000'')])"
proof -
  have v: "validate_date (ascii ''not-a-date'') = Inr None"
    by (simp add: date_eval)
  with legacy_save_user_rejects [of "ascii ''not-a-date''" True "[(1, ascii ''01.01.2000'')]" 1 True]
  show ?thesis by blast
qed

subsection \<open>The command \<open>/superstats\<close>\<close>

text \<open>
  The guard of \<open>admin_stats_handler\<close>, taken by itself: called for a sender who is not the
  configured admin, the handler only sends the access-denied reply.
\<close>

lemma admin_stats_handler_denied:
  "Some (user_id msg) \<noteq> ADMIN_ID cfg \<Longrightarrow>
     admin_stats_handler cfg env msg w =
       ((if send_ok env 0 then None else Some TelegramAPIError),
        w\<lparr>trace := trace w @ [Sent (chat_id msg) ACCESS_DENIED no_markup (send_ok env 0)]\<rparr>)"
  by (simp add: admin_stats_handler_def answer_def send_message_def record_effect_def)

text \<open>
  No message in no state is dispatched to \<open>admin_stats_handler\<close>: the handler without a
  filter is registered before it and accepts every message.
\<close>

lemma dispatch_never_admin: "dispatch cfg st msg \<noteq> Some H_admin_stats_handler"
  by (simp add: dispatch_def handlers_def)

lemma Command_superstats:
  "Command [ascii ''superstats''] cfg
     \<lparr>chat_id = c, user_id = u, first_name = n, msg_text = Some (ascii ''/superstats''),
       msg_caption = cap\<rparr>"
  by (simp add: Command_def truthy_def ascii_def isspace_def)

lemma dispatch_superstats:
  "dispatch cfg NONE
     \<lparr>chat_id = c, user_id = u, first_name = n, msg_text = Some (ascii ''/superstats''),
       msg_caption = cap\<rparr>
     = Some H_fallback_handler"
  by (simp add: dispatch_def handlers_def Command_def truthy_def ascii_def isspace_def
      BUTTON_years_def BUTTON_hours_def BUTTON_progress_def BUTTON_motivation_def BUTTON_change_date_def)

text \<open>
  Claim C1. The claim is that the text \<open>/superstats\<close> is routed to the admin stats handler
  and not to the fallback. In the code it is not: for every user, with no state set, the
  text \<open>/superstats\<close> passes the filter of \<open>admin_stats_handler\<close>, and the dispatcher gives the
  message to \<open>fallback_handler\<close>.
\<close>

theorem superstats_dispatch:
  "dispatch cfg NONE
     \<lparr>chat_id = c, user_id = u, first_name = n, msg_text = Some (ascii ''/superstats''),
       msg_caption = cap\<rparr>
     = Some H_fallback_handler
   \<and> Command [ascii ''superstats''] cfg
        \<lparr>chat_id = c, user_id = u, first_name = n, msg_text = Some (ascii ''/superstats''),
          msg_caption = cap\<rparr>"
  using dispatch_superstats Command_superstats by blast

text \<open>
  Claim C8. The claim is that a sender who is not the admin and invokes the stats command
  gets the access-denied reply and nothing else happens. In the code the command never
  reaches the handler that would deny: for every configuration, every sender and whatever
  the outside decides, the message \<open>/superstats\<close> sent to the freshly started bot is handled
  by \<open>fallback_handler\<close>. It is written to the table \<open>messages\<close> and answered with a fallback
  phrase; no access-denied reply is sent.
\<close>

theorem superstats_not_denied:
  "feed_update cfg env
     \<lparr>chat_id = c, user_id = u, first_name = n, msg_text = Some (ascii ''/superstats''),
       msg_caption = cap\<rparr> initial_world
     = fallback_handler env
         \<lparr>chat_id = c, user_id = u, first_name = n, msg_text = Some (ascii ''/superstats''),
           msg_caption = cap\<rparr> initial_world
   \<and> trace (snd (feed_update cfg env
         \<lparr>chat_id = c, user_id = u, first_name = n, msg_text = Some (ascii ''/superstats''),
           msg_caption = cap\<rparr> initial_world))
       = Sql INSERT_MESSAGE # (if sql_ok env 0 then [] else [Logged OperationalError])
         @ [Sent c (FALLBACK_PHRASE (rnd env 0 mod 4) n) no_markup (send_ok env 0)]
   \<and> messages (db (snd (feed_update cfg env
         \<lparr>chat_id = c, user_id = u, first_name = n, msg_text = Some (ascii ''/superstats''),
           msg_caption = cap\<rparr> initial_world)))
       = (if sql_ok env 0 then [(1, u, Some (ascii ''/superstats''))] else [])"
proof -
  let ?m = "\<lparr>chat_id = c, user_id = u, first_name = n, msg_text = Some (ascii ''/superstats''),
       msg_caption = cap\<rparr>"
  have f: "feed_update cfg env ?m initial_world = fallback_handler env ?m initial_world"
    by (simp add: feed_update_def initial_world_def dispatch_superstats run_handler_def)
  show ?thesis
    unfolding f
    by (simp add: fallback_handler_def log_user_message_def insert_message_def answer_def
        send_message_def record_effect_def initial_world_def)
qed

subsection \<open>Exceptions of the date functions\<close>

lemma py_int_error: "py_int s = Inl e \<Longrightarrow> e = ValueError"
  by (auto simp: py_int_def split: if_splits option.splits)

lemma new_date_error: "new_date y m d = Inl e \<Longrightarrow> e = ValueError"
  by (auto simp: new_date_def split: if_splits)

lemma strptime_error: "strptime s = Inl e \<Longrightarrow> e = ValueError"
  by (auto simp: strptime_def split: list.splits prod.splits if_splits sum.splits
      dest: py_int_error new_date_error)

lemma validate_date_total: "\<exists>r. validate_date s = Inr r"
  by (auto simp: validate_date_def split: sum.splits dest: strptime_error)

lemma int_truediv_target:
  "\<exists>p. int_truediv n (TARGET_YEARS_DISPLAY * WEEKS_IN_YEAR) = Inr p"
  by (simp add: int_truediv_def TARGET_YEARS_DISPLAY_def WEEKS_IN_YEAR_def Let_def)

lemma get_moon_phase_Inr: "get_moon_phase now = Inr (phases ! nat (day now mod 8))"
proof -
  have "0 \<le> day now mod 8" "day now mod 8 < 8"
    by simp_all
  then show ?thesis
    by (simp add: get_moon_phase_def py_getitem_def length_phases)
qed

subsection \<open>What \<open>validate_date\<close> accepts\<close>

text \<open>The texts a pattern can leave, as a property of the text matched.\<close>

lemma in_rx_match_Lit: "r \<in> set (rx_match (Lit a) s) \<longleftrightarrow> s = a # r"
  by (cases s) auto

lemma in_rx_match_Range: "r \<in> set (rx_match (Range a b) s) \<longleftrightarrow> (\<exists>c. s = c # r \<and> a \<le> c \<and> c \<le> b)"
  by (cases s) auto

lemma in_rx_match_Digit: "r \<in> set (rx_match Digit s) \<longleftrightarrow> (\<exists>c. s = c # r \<and> isdecimal c)"
  by (cases s) auto

lemma in_rx_match_Seq:
  "r \<in> set (rx_match (Seq p q) s) \<longleftrightarrow> (\<exists>r1. r1 \<in> set (rx_match p s) \<and> r \<in> set (rx_match q r1))"
  by auto

lemma in_rx_match_Alt:
  "r \<in> set (rx_match (Alt p q) s) \<longleftrightarrow> r \<in> set (rx_match p s) \<or> r \<in> set (rx_match q s)"
  by auto

lemmas in_rx_match = in_rx_match_Lit in_rx_match_Range in_rx_match_Digit in_rx_match_Seq
  in_rx_match_Alt

lemma in_rx_match_re_d: "r \<in> set (rx_match re_d s) \<longleftrightarrow> (\<exists>t. s = t @ r \<and> day_text t)"
proof
  assume "r \<in> set (rx_match re_d s)"
  then consider a b where "s = a # b # r" "day_text [a, b]" | a where "s = a # r" "day_text [a]"
    by (auto simp: re_d_def in_rx_match day_text_def)
  then show "\<exists>t. s = t @ r \<and> day_text t"
  proof cases
    case 1
    then have "s = [a, b] @ r" by simp
    with 1 show ?thesis by blast
  next
    case 2
    then have "s = [a] @ r" by simp
    with 2 show ?thesis by blast
  qed
next
  assume "\<exists>t. s = t @ r \<and> day_text t"
  then obtain t where t: "s = t @ r" "day_text t" by blast
  then show "r \<in> set (rx_match re_d s)"
    by (auto simp: re_d_def in_rx_match day_text_def split: list.splits)
qed

lemma in_rx_match_re_m: "r \<in> set (rx_match re_m s) \<longleftrightarrow> (\<exists>t. s = t @ r \<and> month_text t)"
proof
  assume "r \<in> set (rx_match re_m s)"
  then consider a b where "s = a # b # r" "month_text [a, b]" | a where "s = a # r" "month_text [a]"
    by (auto simp: re_m_def in_rx_match month_text_def)
  then show "\<exists>t. s = t @ r \<and> month_text t"
  proof cases
    case 1
    then have "s = [a, b] @ r" by simp
    with 1 show ?thesis by blast
  next
    case 2
    then have "s = [a] @ r" by simp
    with 2 show ?thesis by blast
  qed
next
  assume "\<exists>t. s = t @ r \<and> month_text t"
  then obtain t where t: "s = t @ r" "month_text t" by blast
  then show "r \<in> set (rx_match re_m s)"
    by (auto simp: re_m_def in_rx_match month_text_def split: list.splits)
qed

lemma length_4: "length t = 4 \<longleftrightarrow> (\<exists>a b c d. t = [a, b, c, d])"
  by (auto simp: length_Suc_conv eval_nat_numeral)

lemma in_rx_match_re_Y: "r \<in> set (rx_match re_Y s) \<longleftrightarrow> (\<exists>t. s = t @ r \<and> year_text t)"
proof
  assume "r \<in> set (rx_match re_Y s)"
  then obtain a b c d where "s = a # b # c # d # r" "isdecimal a" "isdecimal b" "isdecimal c" "isdecimal d"
    by (auto simp: re_Y_def in_rx_match)
  then have "s = [a, b, c, d] @ r" "year_text [a, b, c, d]"
    by (simp_all add: year_text_def)
  then show "\<exists>t. s = t @ r \<and> year_text t" by blast
next
  assume "\<exists>t. s = t @ r \<and> year_text t"
  then obtain t where t: "s = t @ r" "year_text t" by blast
  then obtain a b c d where "t = [a, b, c, d]"
    by (auto simp: year_text_def length_4)
  with t show "r \<in> set (rx_match re_Y s)"
    by (auto simp: re_Y_def in_rx_match year_text_def)
qed

lemma in_rx_group:
  assumes "\<And>r. r \<in> set (rx_match p s) \<longleftrightarrow> (\<exists>t. s = t @ r \<and> P t)"
  shows "(t, r) \<in> set (rx_group p s) \<longleftrightarrow> s = t @ r \<and> P t"
proof
  assume "(t, r) \<in> set (rx_group p s)"
  then have r: "r \<in> set (rx_match p s)" and t: "t = take (length s - length r) s"
    by (auto simp: rx_group_def)
  from r assms obtain t' where "s = t' @ r" "P t'" by blast
  with t show "s = t @ r \<and> P t" by simp
next
  assume a: "s = t @ r \<and> P t"
  then have "r \<in> set (rx_match p s)" using assms by blast
  moreover have "t = take (length s - length r) s" using a by simp
  ultimately show "(t, r) \<in> set (rx_group p s)"
    unfolding rx_group_def by (simp add: image_iff)
qed

lemma in_format_regex_matches_raw:
  "(dt, mt, yt, r) \<in> set (format_regex_matches s) \<longleftrightarrow>
     (\<exists>r1 r2 r3 r4. (dt, r1) \<in> set (rx_group re_d s) \<and> r2 \<in> set (rx_match (Lit 46) r1)
        \<and> (mt, r3) \<in> set (rx_group re_m r2) \<and> r4 \<in> set (rx_match (Lit 46) r3)
        \<and> (yt, r) \<in> set (rx_group re_Y r4))"
  unfolding format_regex_matches_def by (simp add: image_iff) fastforce

lemma in_format_regex_matches:
  "(dt, mt, yt, r) \<in> set (format_regex_matches s) \<longleftrightarrow>
     s = dt @ [46] @ mt @ [46] @ yt @ r \<and> day_text dt \<and> month_text mt \<and> year_text yt"
  unfolding in_format_regex_matches_raw
  by (simp add: in_rx_group [OF in_rx_match_re_d] in_rx_group [OF in_rx_match_re_m]
      in_rx_group [OF in_rx_match_re_Y] in_rx_match_Lit)

lemma not_isdecimal_46: "\<not> isdecimal 46"
  by (simp add: isdecimal_def decimal_value_def decimal_zeros_def)

lemma day_text_no_dot: "day_text t \<Longrightarrow> 46 \<notin> set t"
  using not_isdecimal_46 by (auto simp: day_text_def split: list.splits)

lemma month_text_no_dot: "month_text t \<Longrightarrow> 46 \<notin> set t"
  by (auto simp: month_text_def split: list.splits)

lemma split_at_first:
  "a \<notin> set xs \<Longrightarrow> a \<notin> set xs' \<Longrightarrow> xs @ a # ys = xs' @ a # ys' \<Longrightarrow> xs = xs' \<and> ys = ys'"
proof (induction xs arbitrary: xs')
  case Nil
  then show ?case by (cases xs') auto
next
  case (Cons x xs)
  then show ?case by (cases xs') auto
qed

lemma date_texts_unique:
  assumes "dt @ [46] @ mt @ [46] @ yt @ r = dt' @ [46] @ mt' @ [46] @ yt' @ r'"
    and "day_text dt" "day_text dt'" "month_text mt" "month_text mt'" "year_text yt" "year_text yt'"
  shows "dt = dt' \<and> mt = mt' \<and> yt = yt' \<and> r = r'"
proof -
  from assms(1) have e: "dt @ 46 # (mt @ 46 # (yt @ r)) = dt' @ 46 # (mt' @ 46 # (yt' @ r'))"
    by simp
  note a = split_at_first [OF day_text_no_dot [OF assms(2)] day_text_no_dot [OF assms(3)], OF e]
  note d = a [THEN conjunct1] and 1 = a [THEN conjunct2]
  note b = split_at_first [OF month_text_no_dot [OF assms(4)] month_text_no_dot [OF assms(5)], OF 1]
  note m = b [THEN conjunct1] and 2 = b [THEN conjunct2]
  from assms(6,7) have "length yt = length yt'"
    by (simp add: year_text_def)
  with 2 have "yt = yt'" "r = r'"
    by simp_all
  with d m show ?thesis by simp
qed

lemma new_date_valid: "new_date y m d = Inr x \<longleftrightarrow> x = \<lparr>year = y, month = m, day = d\<rparr> \<and> valid_date x"
  by (auto simp: new_date_def valid_date_def)

lemma strptime_Inr_iff:
  "strptime s = Inr d \<longleftrightarrow>
     (\<exists>dt mt yt. s = dt @ [46] @ mt @ [46] @ yt \<and> day_text dt \<and> month_text mt \<and> year_text yt
        \<and> py_int dt = Inr (day d) \<and> py_int mt = Inr (month d) \<and> py_int yt = Inr (year d)
        \<and> valid_date d)"
proof
  assume a: "strptime s = Inr d"
  then obtain dt mt yt rest ms where ms: "format_regex_matches s = (dt, mt, yt, rest) # ms"
    by (auto simp: strptime_def split: list.splits)
  with a have rest: "rest = []"
    by (auto simp: strptime_def split: if_splits)
  from a ms rest obtain yv mv dv where v: "py_int yt = Inr yv" "py_int mt = Inr mv" "py_int dt = Inr dv"
    "new_date yv mv dv = Inr d"
    by (auto simp: strptime_def split: sum.splits)
  from ms have "(dt, mt, yt, rest) \<in> set (format_regex_matches s)"
    by simp
  with rest have "s = dt @ [46] @ mt @ [46] @ yt" "day_text dt" "month_text mt" "year_text yt"
    by (simp_all add: in_format_regex_matches)
  moreover from v have "py_int dt = Inr (day d)" "py_int mt = Inr (month d)" "py_int yt = Inr (year d)"
    "valid_date d"
    by (auto simp: new_date_valid)
  ultimately show "\<exists>dt mt yt. s = dt @ [46] @ mt @ [46] @ yt \<and> day_text dt \<and> month_text mt \<and> year_text yt
        \<and> py_int dt = Inr (day d) \<and> py_int mt = Inr (month d) \<and> py_int yt = Inr (year d)
        \<and> valid_date d"
    by blast
next
  assume "\<exists>dt mt yt. s = dt @ [46] @ mt @ [46] @ yt \<and> day_text dt \<and> month_text mt \<and> year_text yt
        \<and> py_int dt = Inr (day d) \<and> py_int mt = Inr (month d) \<and> py_int yt = Inr (year d)
        \<and> valid_date d"
  then obtain dt mt yt where s: "s = dt @ [46] @ mt @ [46] @ yt @ []"
    and t: "day_text dt" "month_text mt" "year_text yt"
    and v: "py_int dt = Inr (day d)" "py_int mt = Inr (month d)" "py_int yt = Inr (year d)" "valid_date d"
    by auto
  from s t have mem: "(dt, mt, yt, []) \<in> set (format_regex_matches s)"
    by (simp only: in_format_regex_matches)
  then obtain x ms where ms: "format_regex_matches s = x # ms"
    by (cases "format_regex_matches s") auto
  obtain dt' mt' yt' r' where x: "x = (dt', mt', yt', r')"
    by (cases x) auto
  with ms have "(dt', mt', yt', r') \<in> set (format_regex_matches s)"
    by simp
  then have "s = dt' @ [46] @ mt' @ [46] @ yt' @ r'" "day_text dt'" "month_text mt'" "year_text yt'"
    by (simp_all only: in_format_regex_matches)
  with date_texts_unique [of dt mt yt "[]" dt' mt' yt' r'] s t
  have "dt = dt'" "mt = mt'" "yt = yt'" "r' = []"
    by auto
  with ms x have f: "format_regex_matches s = (dt, mt, yt, []) # ms"
    by simp
  from v(4) have n: "new_date (year d) (month d) (day d) = Inr d"
    by (simp add: new_date_valid)
  show "strptime s = Inr d"
    unfolding strptime_def f by (simp add: v(1,2,3) n)
qed

lemma decimal_value_ascii: "k < 10 \<Longrightarrow> decimal_value (48 + k) = Some k"
  by (simp add: decimal_value_def decimal_zeros_def)

lemma isdecimal_ascii: "k < 10 \<Longrightarrow> isdecimal (48 + k)"
  by (simp add: isdecimal_def decimal_value_ascii)

lemma not_isspace_ascii: "k < 10 \<Longrightarrow> \<not> isspace (48 + k)"
  by (auto simp: isspace_def)

lemma strip_two: "\<not> isspace a \<Longrightarrow> \<not> isspace b \<Longrightarrow> strip [a, b] = [a, b]"
  by (simp add: strip_def)

lemma strip_four: "\<not> isspace a \<Longrightarrow> \<not> isspace d \<Longrightarrow> strip [a, b, c, d] = [a, b, c, d]"
  by (simp add: strip_def)

lemma digit_split:
  fixes x :: int
  assumes "0 \<le> x" "x < 10 * k"
  shows "0 \<le> x div 10" "x div 10 < k" "0 \<le> x mod 10" "x mod 10 < 10"
    "x = 10 * (x div 10) + x mod 10"
  using assms by presburger+

lemma two_digits_split:
  assumes "0 \<le> n" "n \<le> 99"
  obtains a b where "a < 10" "b < 10" "n = int (10 * a + b)" "two_digits n = [48 + a, 48 + b]"
proof -
  from assms have "n < 10 * 10" by simp
  note s = digit_split [OF assms(1) this]
  show thesis
  proof (rule that [of "nat (n div 10)" "nat (n mod 10)"])
    show "nat (n div 10) < 10" "nat (n mod 10) < 10"
      using s(2,4) by simp_all
    show "n = int (10 * nat (n div 10) + nat (n mod 10))"
      using s(1,3,5) by linarith
    show "two_digits n = [48 + nat (n div 10), 48 + nat (n mod 10)]"
      by (simp add: two_digits_def)
  qed
qed

lemma four_digits_split:
  assumes "0 \<le> n" "n \<le> 9999"
  obtains a b c d where "a < 10" "b < 10" "c < 10" "d < 10"
    "n = int (10 * (10 * (10 * a + b) + c) + d)" "four_digits n = [48 + a, 48 + b, 48 + c, 48 + d]"
proof -
  define q1 where "q1 = n div 10"
  define r1 where "r1 = n mod 10"
  define q2 where "q2 = q1 div 10"
  define r2 where "r2 = q1 mod 10"
  define q3 where "q3 = q2 div 10"
  define r3 where "r3 = q2 mod 10"
  from assms have "n < 10 * 1000" by simp
  note s1 = digit_split [OF assms(1) this, folded q1_def r1_def]
  from s1(2) have "q1 < 10 * 100" by simp
  note s2 = digit_split [OF s1(1) this, folded q2_def r2_def]
  from s2(2) have "q2 < 10 * 10" by simp
  note s3 = digit_split [OF s2(1) this, folded q3_def r3_def]
  have "n div (10 * 10) = n div 10 div 10"
    by (rule zdiv_zmult2_eq) simp
  then have e2: "n div 100 = q2"
    by (simp add: q1_def q2_def)
  have "n div (100 * 10) = n div 100 div 10"
    by (rule zdiv_zmult2_eq) simp
  then have e3: "n div 1000 = q3"
    by (simp add: e2 q3_def)
  have f: "four_digits n = [48 + nat q3, 48 + nat r3, 48 + nat r2, 48 + nat r1]"
    unfolding four_digits_def e2 e3 by (simp add: q1_def r1_def q2_def r2_def q3_def r3_def)
  have "int (10 * (10 * (10 * nat q3 + nat r3) + nat r2) + nat r1)
      = 10 * (10 * (10 * q3 + r3) + r2) + r1"
    using s1(3) s2(3) s3(1,3) by simp
  also have "\<dots> = n"
    using s1(5) s2(5) s3(5) by simp
  finally have e: "n = int (10 * (10 * (10 * nat q3 + nat r3) + nat r2) + nat r1)"
    by simp
  have "nat q3 < 10" "nat r3 < 10" "nat r2 < 10" "nat r1 < 10"
    using s1(4) s2(4) s3(2,4) by simp_all
  then show thesis
    using e f by (rule that)
qed

lemma py_int_two_digits:
  assumes "0 \<le> n" "n \<le> 99"
  shows "py_int (two_digits n) = Inr n"
proof -
  from assms obtain a b where ab: "a < 10" "b < 10" "n = int (10 * a + b)"
    "two_digits n = [48 + a, 48 + b]"
    by (rule two_digits_split)
  show ?thesis
    unfolding ab(4) py_int_def
    by (simp add: strip_two not_isspace_ascii decimal_value_ascii ab(1,2,3))
qed

lemma py_int_four_digits:
  assumes "0 \<le> n" "n \<le> 9999"
  shows "py_int (four_digits n) = Inr n"
proof -
  from assms obtain a b c d where ab: "a < 10" "b < 10" "c < 10" "d < 10"
    "n = int (10 * (10 * (10 * a + b) + c) + d)" "four_digits n = [48 + a, 48 + b, 48 + c, 48 + d]"
    by (rule four_digits_split)
  show ?thesis
    unfolding ab(6) py_int_def
    by (simp add: strip_four not_isspace_ascii decimal_value_ascii ab(1,2,3,4,5))
qed

lemma year_text_four_digits:
  assumes "0 \<le> n" "n \<le> 9999"
  shows "year_text (four_digits n)"
proof -
  from assms obtain a b c d where ab: "a < 10" "b < 10" "c < 10" "d < 10"
    "n = int (10 * (10 * (10 * a + b) + c) + d)" "four_digits n = [48 + a, 48 + b, 48 + c, 48 + d]"
    by (rule four_digits_split)
  show ?thesis
    unfolding ab(6) by (simp add: year_text_def isdecimal_ascii ab(1,2,3,4))
qed

lemma day_text_two_digits:
  assumes "1 \<le> n" "n \<le> 31"
  shows "day_text (two_digits n)"
proof -
  from assms have "0 \<le> n" "n \<le> 99" by simp_all
  then obtain a b where ab: "a < 10" "b < 10" "n = int (10 * a + b)"
    "two_digits n = [48 + a, 48 + b]"
    by (rule two_digits_split)
  from assms ab(1,2,3) have "a = 0 \<and> 1 \<le> b \<or> a = 1 \<or> a = 2 \<or> a = 3 \<and> b \<le> 1"
    by auto
  with isdecimal_ascii [OF ab(2)] ab(2) show ?thesis
    unfolding ab(4) by (auto simp: day_text_def)
qed

lemma month_text_two_digits:
  assumes "1 \<le> n" "n \<le> 12"
  shows "month_text (two_digits n)"
proof -
  from assms have "0 \<le> n" "n \<le> 99" by simp_all
  then obtain a b where ab: "a < 10" "b < 10" "n = int (10 * a + b)"
    "two_digits n = [48 + a, 48 + b]"
    by (rule two_digits_split)
  from assms ab(1,2,3) have "a = 0 \<and> 1 \<le> b \<or> a = 1 \<and> b \<le> 2"
    by auto
  with ab(2) show ?thesis
    unfolding ab(4) by (auto simp: month_text_def)
qed

lemma is_ddmmyyyy_ddmmyyyy:
  assumes "0 \<le> day d" "day d \<le> 99" "0 \<le> month d" "month d \<le> 99" "0 \<le> year d" "year d \<le> 9999"
  shows "is_ddmmyyyy (ddmmyyyy d)"
proof -
  from assms(1,2) obtain a b where 1: "a < 10" "b < 10" "two_digits (day d) = [48 + a, 48 + b]"
    by (rule two_digits_split)
  from assms(3,4) obtain a' b' where 2: "a' < 10" "b' < 10" "two_digits (month d) = [48 + a', 48 + b']"
    by (rule two_digits_split)
  from assms(5,6) obtain e f g h where 3: "e < 10" "f < 10" "g < 10" "h < 10"
    "four_digits (year d) = [48 + e, 48 + f, 48 + g, 48 + h]"
    by (rule four_digits_split)
  from 1 2 3 show ?thesis
    unfolding ddmmyyyy_def by (simp add: is_ddmmyyyy_def ascii_digit_def)
qed

lemma validate_date_Some_iff: "validate_date s = Inr (Some d) \<longleftrightarrow> strptime s = Inr d"
  by (auto simp: validate_date_def split: sum.splits)

lemma validate_date_cases: "validate_date s = Inr None \<or> (\<exists>x. validate_date s = Inr (Some x))"
proof (cases "strptime s")
  case (Inl e)
  with strptime_error [OF Inl] show ?thesis by (simp add: validate_date_def)
next
  case (Inr d)
  then show ?thesis by (simp add: validate_date_def)
qed

lemma strptime_ddmmyyyy:
  assumes "valid_date d"
  shows "strptime (ddmmyyyy d) = Inr d"
proof -
  from assms have y: "1 \<le> year d" "year d \<le> 9999" and m: "1 \<le> month d" "month d \<le> 12"
    and dd: "1 \<le> day d" "day d \<le> days_in_month (year d) (month d)"
    by (simp_all add: valid_date_def MINYEAR_def MAXYEAR_def)
  from dd(2) days_in_month_bounds(2) [OF m, of "year d"] have d31: "day d \<le> 31"
    by simp
  have "day_text (two_digits (day d))" "month_text (two_digits (month d))"
    "year_text (four_digits (year d))"
    "py_int (two_digits (day d)) = Inr (day d)" "py_int (two_digits (month d)) = Inr (month d)"
    "py_int (four_digits (year d)) = Inr (year d)"
    using y m dd(1) d31
    by (simp_all add: day_text_two_digits month_text_two_digits year_text_four_digits
        py_int_two_digits py_int_four_digits)
  with assms show ?thesis
    unfolding strptime_Inr_iff ddmmyyyy_def by blast
qed

lemma is_ddmmyyyy_valid:
  assumes "valid_date d"
  shows "is_ddmmyyyy (ddmmyyyy d)"
proof -
  from assms have y: "1 \<le> year d" "year d \<le> 9999" and m: "1 \<le> month d" "month d \<le> 12"
    and dd: "1 \<le> day d" "day d \<le> days_in_month (year d) (month d)"
    by (simp_all add: valid_date_def MINYEAR_def MAXYEAR_def)
  from dd(2) days_in_month_bounds(2) [OF m, of "year d"] have "day d \<le> 31"
    by simp
  with y m dd(1) show ?thesis
    by (intro is_ddmmyyyy_ddmmyyyy) simp_all
qed

text \<open>
  Claim C3, as the code has it. For every date of the calendar, \<open>validate_date\<close> on its
  text \<open>DD.MM.YYYY\<close> returns that date. For every string, \<open>validate_date\<close> returns a date
  exactly when the string is a day text, a dot, a month text, a dot and a year text whose
  values name a day of the calendar, and then it returns that day; so one-digit days and
  months, a day written as a space and a digit, and digits of other scripts are accepted
  besides the exact pattern. For every other string it returns \<open>None\<close>. It never raises.
\<close>

theorem validate_date_characterised:
  "(valid_date d \<longrightarrow> is_ddmmyyyy (ddmmyyyy d) \<and> validate_date (ddmmyyyy d) = Inr (Some d))
   \<and> (validate_date s = Inr (Some d') \<longleftrightarrow>
        (\<exists>dt mt yt. s = dt @ [46] @ mt @ [46] @ yt \<and> day_text dt \<and> month_text mt \<and> year_text yt
           \<and> py_int dt = Inr (day d') \<and> py_int mt = Inr (month d') \<and> py_int yt = Inr (year d')
           \<and> valid_date d'))
   \<and> (validate_date s = Inr None \<or> (\<exists>x. validate_date s = Inr (Some x)))"
  using strptime_ddmmyyyy [of d] is_ddmmyyyy_valid [of d] validate_date_cases [of s]
    strptime_Inr_iff [of s d']
  unfolding validate_date_Some_iff by blast

lemma ddmmyyyy_15_05_1990:
  "ddmmyyyy \<lparr>year = 1990, month = 5, day = 15\<rparr> = ascii ''15.05.1990''"
  by (simp add: ddmmyyyy_def two_digits_def four_digits_def ascii_def)

lemma validate_1_5_1990:
  "validate_date (ascii ''1.5.1990'') = Inr (Some \<lparr>year = 1990, month = 5, day = 1\<rparr>)"
  by (simp add: date_eval)

theorem validate_date_characterised_witness:
  "valid_date \<lparr>year = 1990, month = 5, day = 15\<rparr>
   \<and> validate_date (ascii ''15.05.1990'') = Inr (Some \<lparr>year = 1990, month = 5, day = 15\<rparr>)
   \<and> is_ddmmyyyy (ascii ''15.05.1990'')
   \<and> validate_date (ascii ''1.5.1990'') = Inr (Some \<lparr>year = 1990, month = 5, day = 1\<rparr>)
   \<and> (\<exists>dt mt yt. ascii ''1.5.1990'' = dt @ [46] @ mt @ [46] @ yt \<and> day_text dt \<and> month_text mt
        \<and> year_text yt)"
proof -
  have v: "valid_date \<lparr>year = 1990, month = 5, day = 15\<rparr>"
    by (simp add: valid_date_def MINYEAR_def MAXYEAR_def days_in_month_def DAYS_IN_MONTH_def)
  from v validate_1_5_1990
    validate_date_characterised [of "\<lparr>year = 1990, month = 5, day = 15\<rparr>" "ascii ''1.5.1990''"
      "\<lparr>year = 1990, month = 5, day = 1\<rparr>"]
  show ?thesis
    unfolding ddmmyyyy_15_05_1990 by blast
qed

text \<open>
  The claim says every string that is not in the exact pattern \<open>DD.MM.YYYY\<close> is rejected.
  The string \<open>1.5.1990\<close> is not in the pattern, and the code reads it as 1 May 1990.
\<close>

theorem validate_date_lenient:
  "\<not> is_ddmmyyyy (ascii ''1.5.1990'')
   \<and> validate_date (ascii ''1.5.1990'') = Inr (Some \<lparr>year = 1990, month = 5, day = 1\<rparr>)"
  by (simp add: validate_1_5_1990) (simp add: is_ddmmyyyy_def ascii_def)


subsection \<open>The weekly job\<close>

lemma attempted_append [simp]: "attempted (xs @ ys) = attempted xs @ attempted ys"
  by (simp add: attempted_def)

lemma logged_append [simp]: "logged (xs @ ys) = logged xs @ logged ys"
  by (simp add: logged_def)

lemma attempted_simps [simp]:
  "attempted [] = []"
  "attempted (Sent chat r k ok # xs) = chat # attempted xs"
  "attempted (Sql st # xs) = attempted xs"
  "attempted (Logged e # xs) = attempted xs"
  by (simp_all add: attempted_def)

lemma logged_simps [simp]:
  "logged [] = []"
  "logged (Sent chat r k ok # xs) = logged xs"
  "logged (Sql st # xs) = logged xs"
  "logged (Logged e # xs) = e # logged xs"
  by (simp_all add: logged_def)

lemmas action_defs = seq_def except_Exception_def finish_def raise_def logger_error_def
  send_message_def answer_def set_state_def record_effect_def

text \<open>
  One report: whatever happens inside \<open>send_weekly_update\<close>, it returns without raising,
  having tried the send exactly when the stored string parsed.
\<close>

lemma send_weekly_update_effect:
  "\<exists>w'. send_weekly_update env i uid bd w = (None, w')
     \<and> db w' = db w \<and> fsm w' = fsm w
     \<and> attempted (trace w') = attempted (trace w) @ (if parses bd then [uid] else [])
     \<and> logged (trace w') = logged (trace w) @ weekly_failure env (i, uid, bd)"
proof (cases "strptime bd")
  case (Inl e)
  then have "e = ValueError"
    by (rule strptime_error)
  with Inl show ?thesis
    by (simp add: send_weekly_update_def parses_def weekly_failure_def action_defs)
next
  case (Inr d)
  obtain p where p: "int_truediv (weeksLived (today env) d) (TARGET_YEARS_DISPLAY * WEEKS_IN_YEAR) = Inr p"
    using int_truediv_target by blast
  from Inr p show ?thesis
    by (simp add: send_weekly_update_def parses_def weekly_failure_def action_defs get_moon_phase_Inr Let_def)
qed

lemma send_all_effect:
  "\<exists>w'. send_all env i rows w = (None, w')
     \<and> db w' = db w \<and> fsm w' = fsm w
     \<and> attempted (trace w') = attempted (trace w) @ map fst (filter (\<lambda>row. parses (snd row)) rows)
     \<and> logged (trace w') = logged (trace w) @ concat (map (weekly_failure env) (enumerate i rows))"
proof (induction rows arbitrary: i w)
  case Nil
  then show ?case by (simp add: finish_def)
next
  case (Cons row rows)
  obtain w1 where w1: "send_weekly_update env i (fst row) (snd row) w = (None, w1)"
    "db w1 = db w" "fsm w1 = fsm w"
    "attempted (trace w1) = attempted (trace w) @ (if parses (snd row) then [fst row] else [])"
    "logged (trace w1) = logged (trace w) @ weekly_failure env (i, fst row, snd row)"
    using send_weekly_update_effect by blast
  obtain w2 where w2: "send_all env (Suc i) rows w1 = (None, w2)"
    "db w2 = db w1" "fsm w2 = fsm w1"
    "attempted (trace w2) = attempted (trace w1) @ map fst (filter (\<lambda>row. parses (snd row)) rows)"
    "logged (trace w2) = logged (trace w1) @ concat (map (weekly_failure env) (enumerate (Suc i) rows))"
    using Cons.IH by blast
  from w1 w2 show ?case
    by (cases row) (simp add: seq_def)
qed

lemma weekly_updates_task_effect:
  "\<exists>w'. weekly_updates_task env w = (None, w')
     \<and> db w' = db w \<and> fsm w' = fsm w
     \<and> (sql_ok env 0 \<longrightarrow>
          attempted (trace w') = attempted (trace w) @ map fst (filter (\<lambda>row. parses (snd row)) (users (db w)))
        \<and> logged (trace w') = logged (trace w) @ concat (map (weekly_failure env) (enumerate 0 (users (db w)))))"
proof (cases "sql_ok env 0")
  case True
  let ?w1 = "record_effect (Sql SELECT_ALL_USERS) w"
  obtain w2 where w2: "send_all env 0 (users (db w)) ?w1 = (None, w2)"
    "db w2 = db ?w1" "fsm w2 = fsm ?w1"
    "attempted (trace w2) = attempted (trace ?w1) @ map fst (filter (\<lambda>row. parses (snd row)) (users (db w)))"
    "logged (trace w2) = logged (trace ?w1) @ concat (map (weekly_failure env) (enumerate 0 (users (db w))))"
    using send_all_effect by blast
  with True show ?thesis
    by (simp add: weekly_updates_task_def get_all_users_def select_all_users_def except_Exception_def
        record_effect_def)
next
  case False
  then show ?thesis
    by (simp add: weekly_updates_task_def get_all_users_def select_all_users_def except_Exception_def
        record_effect_def finish_def)
qed

text \<open>
  Claim C6. For every list of stored users and whatever sends fail: when the job has read
  the users, it does not raise, it tries a send to every stored user whose date parses, in
  the order of the table, and it logs one error for each user whose send failed or whose
  date did not parse. A failed send to one user therefore leaves the sends to the others
  in place. With three stored users and a failing send to the second, the sends tried are
  to the first, the second and the third, and one error is logged.
\<close>

theorem weekly_updates_task_best_effort:
  "sql_ok env 0 \<longrightarrow>
     fst (weekly_updates_task env w) = None
     \<and> attempted (trace (snd (weekly_updates_task env w)))
         = attempted (trace w) @ map fst (filter (\<lambda>row. parses (snd row)) (users (db w)))
     \<and> logged (trace (snd (weekly_updates_task env w)))
         = logged (trace w) @ concat (map (weekly_failure env) (enumerate 0 (users (db w))))"
  using weekly_updates_task_effect [of env w] by auto

lemma parses_samples:
  "parses (ascii ''15.05.1990'')" "parses (ascii ''01.01.2000'')" "parses (ascii ''31.12.1999'')"
  by (simp_all add: parses_def date_eval)

theorem weekly_updates_task_best_effort_witness:
  "sql_ok (sample_env\<lparr>send_ok := (\<lambda>k. k \<noteq> 1)\<rparr>) 0
   \<and> attempted (trace (snd (weekly_updates_task (sample_env\<lparr>send_ok := (\<lambda>k. k \<noteq> 1)\<rparr>) three_users)))
       = [1, 2, 3]
   \<and> logged (trace (snd (weekly_updates_task (sample_env\<lparr>send_ok := (\<lambda>k. k \<noteq> 1)\<rparr>) three_users)))
       = [TelegramAPIError]"
  using weekly_updates_task_best_effort [of "sample_env\<lparr>send_ok := (\<lambda>k. k \<noteq> 1)\<rparr>" three_users]
  by (simp add: sample_env_def three_users_def initial_world_def parses_samples weekly_failure_def)

subsection \<open>Stored dates\<close>

lemma db_record_effect [simp]: "db (record_effect x w) = db w"
  by (simp add: record_effect_def)

lemma db_answer [simp]: "db (snd (answer ok msg r k w)) = db w"
  by (simp add: answer_def send_message_def)

lemma db_set_state [simp]: "db (snd (set_state msg st w)) = db w"
  by (simp add: set_state_def)

lemma db_get_user [simp]: "db (snd (get_user ok uid w)) = db w"
  by (simp add: get_user_def select_birth_date_def)

lemma db_internal_error [simp]: "db (snd (internal_error env msg e w)) = db w"
  by (simp add: internal_error_def seq_def logger_error_def answer_def send_message_def
      split: prod.splits option.splits)

lemma db_seq_answer_set_state [simp]:
  "db (snd (seq (answer ok msg r k) (set_state msg st) w)) = db w"
  by (simp add: action_defs split: prod.splits option.splits)

lemma db_except_Exception:
  assumes "\<And>e w'. db (snd (handler e w')) = db w'"
  shows "db (snd (except_Exception body handler w)) = db (snd (body w))"
  using assms by (cases "body w") (auto simp: except_Exception_def split: option.splits)

lemma db_try_internal_error [simp]:
  "db (snd (except_Exception body (internal_error env msg) w)) = db (snd (body w))"
  by (rule db_except_Exception) simp

lemma users_log_user_message [simp]:
  "users (db (log_user_message ok uid txt w)) = users (db w)"
  by (simp add: log_user_message_def insert_message_def)

lemma db_start_handler: "db (snd (start_handler env msg w)) = db w"
  unfolding start_handler_def
  apply simp
  apply (cases "get_user (sql_ok env 0) (user_id msg) w")
  subgoal for bd w1
    using db_get_user [of "sql_ok env 0" "user_id msg" w] int_truediv_target
    by (auto simp: raise_def Let_def split: option.splits sum.splits)
  done

lemma db_handle_years: "db (snd (handle_years env msg w)) = db w"
  unfolding handle_years_def
  apply simp
  apply (cases "get_user (sql_ok env 0) (user_id msg) w")
  subgoal for bd w1
    using db_get_user [of "sql_ok env 0" "user_id msg" w]
    by (auto simp: raise_def Let_def split: option.splits sum.splits)
  done

lemma db_handle_hours: "db (snd (handle_hours env msg w)) = db w"
  unfolding handle_hours_def
  apply simp
  apply (cases "get_user (sql_ok env 0) (user_id msg) w")
  subgoal for bd w1
    using db_get_user [of "sql_ok env 0" "user_id msg" w]
    by (auto simp: raise_def Let_def split: option.splits sum.splits)
  done

lemma db_handle_progress: "db (snd (handle_progress env msg w)) = db w"
  unfolding handle_progress_def
  apply simp
  apply (cases "get_user (sql_ok env 0) (user_id msg) w")
  subgoal for bd w1
    using db_get_user [of "sql_ok env 0" "user_id msg" w]
    by (auto simp: raise_def Let_def split: option.splits sum.splits)
  done

lemma db_handle_motivation: "db (snd (handle_motivation env msg w)) = db w"
  unfolding handle_motivation_def
  by simp

lemma db_handle_change_date: "db (snd (handle_change_date env msg w)) = db w"
  unfolding handle_change_date_def
  by simp

lemma users_fallback_handler: "users (db (snd (fallback_handler env msg w))) = users (db w)"
  by (simp add: fallback_handler_def)

lemma db_execute:
  assumes "\<And>v w'. db (snd (k v w')) = db w'"
  shows "db (snd (execute st res k w)) = db w"
  using assms by (cases res) (simp_all add: execute_def raise_def)

lemma db_get_all_users [simp]: "db (snd (get_all_users ok w)) = db w"
  by (simp add: get_all_users_def select_all_users_def)

lemma db_admin_stats_handler: "db (snd (admin_stats_handler cfg env msg w)) = db w"
proof -
  have h: "db (snd ((\<lambda>e. seq (logger_error e) (answer (send_ok env 1) msg STATS_FAILED no_markup)) e w')) = db w'"
    for e w'
    by (simp add: action_defs)
  have "db (snd (except_Exception
        (\<lambda>w. case get_all_users (sql_ok env 0) w of (rows, w1) \<Rightarrow>
           execute COUNT_MESSAGES (count_messages (sql_ok env 1) (db w1))
             (\<lambda>total_messages w2.
                execute TOP_TALKERS (top_talkers (sql_ok env 2) (db w2))
                  (\<lambda>top_users.
                     answer (send_ok env 0) msg (STATS (length rows) total_messages top_users)
                       no_markup) w2) w1)
        (\<lambda>e. seq (logger_error e) (answer (send_ok env 1) msg STATS_FAILED no_markup)) w)) = db w"
    apply (subst db_except_Exception [OF h])
    apply (cases "get_all_users (sql_ok env 0) w")
    subgoal for rows w1
      using db_get_all_users [of "sql_ok env 0" w]
      by (simp add: db_execute)
    done
  then show ?thesis
    by (simp add: admin_stats_handler_def)
qed

lemma users_process_birth_date:
  "users (db (snd (process_birth_date env msg w))) = users (db w)
   \<or> (\<exists>s d. validate_date s = Inr (Some d)
        \<and> users (db (snd (process_birth_date env msg w))) = upsert_row (users (db w)) (user_id msg) s)"
  unfolding process_birth_date_def
  apply simp
  apply (cases "msg_text msg")
   apply (simp add: raise_def)
  subgoal for t
    apply (cases "validate_date (strip t)")
     apply (simp add: raise_def)
    subgoal for r
      apply (cases r)
       apply simp
      apply (cases "sql_ok env 0")
       apply (auto simp: save_user_def insert_or_replace_user_def)
      done
    done
  done

lemma users_process_new_birth_date:
  "users (db (snd (process_new_birth_date env msg w))) = users (db w)
   \<or> (\<exists>s d. validate_date s = Inr (Some d)
        \<and> users (db (snd (process_new_birth_date env msg w))) = upsert_row (users (db w)) (user_id msg) s)"
  unfolding process_new_birth_date_def
  apply simp
  apply (cases "msg_text msg")
   apply (simp add: raise_def)
  subgoal for t
    apply (cases "validate_date (strip t)")
     apply (simp add: raise_def)
    subgoal for r
      apply (cases r)
       apply simp
      apply (cases "sql_ok env 0")
       apply (auto simp: save_user_def insert_or_replace_user_def)
      done
    done
  done

lemma users_run_handler:
  "users (db (snd (run_handler cfg env h msg w))) = users (db w)
   \<or> (\<exists>s d. validate_date s = Inr (Some d)
        \<and> users (db (snd (run_handler cfg env h msg w))) = upsert_row (users (db w)) (user_id msg) s)"
  using users_process_birth_date [of env msg w] users_process_new_birth_date [of env msg w]
  by (cases h)
    (simp_all add: run_handler_def db_start_handler db_handle_years db_handle_hours db_handle_progress
      db_handle_motivation db_handle_change_date users_fallback_handler db_admin_stats_handler)

lemma users_feed_update:
  "users (db (snd (feed_update cfg env msg w))) = users (db w)
   \<or> (\<exists>s d. validate_date s = Inr (Some d)
        \<and> users (db (snd (feed_update cfg env msg w))) = upsert_row (users (db w)) (user_id msg) s)"
  using users_run_handler [of cfg env _ msg w]
  by (auto simp: feed_update_def finish_def split: option.splits)

lemma set_upsert_row: "set (upsert_row rows uid s) \<subseteq> insert (uid, s) (set rows)"
  by (auto simp: upsert_row_def set_insort_key)

lemma db_weekly_updates_task: "db (snd (weekly_updates_task env w)) = db w"
  using weekly_updates_task_effect [of env w] by auto

text \<open>
  Every stored string has been accepted by \<open>validate_date\<close>: the two handlers that call
  \<open>save_user\<close> do so only after \<open>validate_date\<close> returned a date for the very string they
  store, and nothing else writes to the table.
\<close>

lemma stored_dates_validated:
  "reachable cfg w \<Longrightarrow> (uid, s) \<in> set (users (db w)) \<Longrightarrow> \<exists>d. validate_date s = Inr (Some d)"
proof (induction arbitrary: uid s rule: reachable.induct)
  case initial
  then show ?case by (simp add: initial_world_def)
next
  case (update w env msg)
  from users_feed_update [of cfg env msg w] show ?case
  proof
    assume "users (db (snd (feed_update cfg env msg w))) = users (db w)"
    with update show ?thesis by simp
  next
    assume "\<exists>s' d. validate_date s' = Inr (Some d)
      \<and> users (db (snd (feed_update cfg env msg w))) = upsert_row (users (db w)) (user_id msg) s'"
    then obtain s' d where v: "validate_date s' = Inr (Some d)"
      and u: "users (db (snd (feed_update cfg env msg w))) = upsert_row (users (db w)) (user_id msg) s'"
      by blast
    from update.prems u set_upsert_row [of "users (db w)" "user_id msg" s']
    have "(uid, s) = (user_id msg, s') \<or> (uid, s) \<in> set (users (db w))"
      by auto
    with v update.IH show ?thesis by auto
  qed
next
  case (weekly w env)
  then show ?case by (simp add: db_weekly_updates_task)
next
  case (restart w)
  then show ?case by simp
qed

text \<open>
  Claim C4, as the code has it. In every state the system can reach from its start, by
  handling messages, running the weekly job and restarting, in any order and with any
  failures of the database and of the sends, every string stored as a birth date is a day
  text, a dot, a month text, a dot and a year text whose values name a day of the
  calendar, which is what \<open>validate_date\<close> accepts. The stored string need not be in the
  exact pattern \<open>DD.MM.YYYY\<close>.
\<close>

theorem stored_dates_accepted:
  assumes "reachable cfg w" and "(uid, s) \<in> set (users (db w))"
  shows "\<exists>d dt mt yt. validate_date s = Inr (Some d)
       \<and> s = dt @ [46] @ mt @ [46] @ yt \<and> day_text dt \<and> month_text mt \<and> year_text yt
       \<and> py_int dt = Inr (day d) \<and> py_int mt = Inr (month d) \<and> py_int yt = Inr (year d)
       \<and> valid_date d"
proof -
  from assms obtain d where d: "validate_date s = Inr (Some d)"
    using stored_dates_validated by blast
  then have "strptime s = Inr d"
    by (simp add: validate_date_Some_iff)
  with d show ?thesis
    unfolding strptime_Inr_iff by blast
qed

lemma validate_15_05_1990:
  "validate_date (ascii ''15.05.1990'') = Inr (Some \<lparr>year = 1990, month = 5, day = 15\<rparr>)"
  by (simp add: date_eval)

lemma strip_samples:
  "strip (ascii ''15.05.1990'') = ascii ''15.05.1990''" "strip (ascii ''1.5.1990'') = ascii ''1.5.1990''"
  by (simp_all add: strip_def ascii_def isspace_def)

lemma dispatch_start:
  "dispatch cfg st (sample_msg ''/start'') = Some H_start_handler"
  by (simp add: dispatch_def handlers_def Command_def truthy_def ascii_def isspace_def sample_msg_def)

lemma dispatch_waiting:
  "dispatch cfg WAITING_BIRTH_DATE (sample_msg ''15.05.1990'') = Some H_process_birth_date"
  "dispatch cfg WAITING_BIRTH_DATE (sample_msg ''1.5.1990'') = Some H_process_birth_date"
  by (simp_all add: dispatch_def handlers_def Command_def truthy_def ascii_def isspace_def
      sample_msg_def)

text \<open>
  The onboarding scenario: a new user sends \<open>/start\<close> and then a text that \<open>validate_date\<close>
  accepts; the table then holds that text for the user.
\<close>

lemma users_after_onboarding:
  assumes "validate_date (ascii x) = Inr (Some d)" "strip (ascii x) = ascii x"
    and "dispatch cfg WAITING_BIRTH_DATE (sample_msg x) = Some H_process_birth_date"
  shows "users (db (snd (feed_update cfg sample_env (sample_msg x)
      (snd (feed_update cfg sample_env (sample_msg ''/start'') initial_world)))))
     = [(1, ascii x)]"
proof -
  have m: "chat_id (sample_msg y) = 1" "user_id (sample_msg y) = 1"
    "msg_text (sample_msg y) = Some (ascii y)" for y
    by (simp_all add: sample_msg_def)
  show ?thesis
    by (simp add: feed_update_def dispatch_start run_handler_def initial_world_def
        start_handler_def process_birth_date_def get_user_def select_birth_date_def truthy_def
        action_defs internal_error_def assms save_user_def
        insert_or_replace_user_def upsert_row_def sample_env_def m)
qed

theorem stored_dates_accepted_witness:
  "reachable sample_config (snd (feed_update sample_config sample_env (sample_msg ''15.05.1990'')
      (snd (feed_update sample_config sample_env (sample_msg ''/start'') initial_world))))
   \<and> (1, ascii ''15.05.1990'') \<in> set (users (db (snd (feed_update sample_config sample_env
        (sample_msg ''15.05.1990'')
        (snd (feed_update sample_config sample_env (sample_msg ''/start'') initial_world))))))
   \<and> (\<exists>d dt mt yt. validate_date (ascii ''15.05.1990'') = Inr (Some d)
        \<and> ascii ''15.05.1990'' = dt @ [46] @ mt @ [46] @ yt \<and> day_text dt \<and> month_text mt
        \<and> year_text yt \<and> py_int dt = Inr (day d) \<and> py_int mt = Inr (month d)
        \<and> py_int yt = Inr (year d) \<and> valid_date d)"
proof -
  let ?w = "snd (feed_update sample_config sample_env (sample_msg ''15.05.1990'')
      (snd (feed_update sample_config sample_env (sample_msg ''/start'') initial_world)))"
  have r: "reachable sample_config ?w"
    by (intro reachable.update reachable.initial)
  have m: "(1, ascii ''15.05.1990'') \<in> set (users (db ?w))"
    by (simp add: users_after_onboarding [OF validate_15_05_1990 strip_samples(1) dispatch_waiting(1)])
  from r m stored_dates_accepted [OF r m] show ?thesis
    by blast
qed

text \<open>
  The claim reads the stored strings as validated against the exact pattern \<open>DD.MM.YYYY\<close>.
  A new user who sends \<open>/start\<close> and then \<open>1.5.1990\<close> brings the system to a state whose
  table holds \<open>1.5.1990\<close>, a string that is not in the pattern.
\<close>

theorem stored_date_not_ddmmyyyy:
  "reachable sample_config (snd (feed_update sample_config sample_env (sample_msg ''1.5.1990'')
      (snd (feed_update sample_config sample_env (sample_msg ''/start'') initial_world))))
   \<and> (1, ascii ''1.5.1990'') \<in> set (users (db (snd (feed_update sample_config sample_env
        (sample_msg ''1.5.1990'')
        (snd (feed_update sample_config sample_env (sample_msg ''/start'') initial_world))))))
   \<and> \<not> is_ddmmyyyy (ascii ''1.5.1990'')"
proof -
  let ?w = "snd (feed_update sample_config sample_env (sample_msg ''1.5.1990'')
      (snd (feed_update sample_config sample_env (sample_msg ''/start'') initial_world)))"
  have r: "reachable sample_config ?w"
    by (intro reachable.update reachable.initial)
  have m: "(1, ascii ''1.5.1990'') \<in> set (users (db ?w))"
    by (simp add: users_after_onboarding [OF validate_1_5_1990 strip_samples(2) dispatch_waiting(2)])
  have n: "\<not> is_ddmmyyyy (ascii ''1.5.1990'')"
    by (simp add: is_ddmmyyyy_def ascii_def)
  from r m n show ?thesis
    by blast
qed

subsection \<open>The progress bar\<close>

text \<open>Evaluation of the two recursive functions on numerals.\<close>

lemma bit_length_numeral [simp]:
  "bit_length 0 = 0"
  "bit_length 1 = 1"
  "bit_length (numeral k) = Suc (bit_length (numeral k div 2))"
  "bit_length (- numeral k) = 0"
  by (simp_all add: bit_length.simps [of 0] bit_length.simps [of 1] bit_length.simps [of "numeral k"]
       bit_length.simps [of "- numeral k"])

lemma str_nat_numeral [simp]:
  "str_nat 0 = [48]"
  "str_nat (Suc 0) = [49]"
  "str_nat (numeral k) =
     (if numeral k < (10::nat) then [48 + numeral k]
      else str_nat (numeral k div 10) @ [48 + numeral k mod 10])"
  by (simp_all add: str_nat.simps [of 0] str_nat.simps [of "Suc 0"] str_nat.simps [of "numeral k"])

text \<open>The definitions that evaluate float arithmetic on given numbers.\<close>

lemmas float_eval = fmul_def float_of_int_def fl_round_def float_trunc_def round_shift_def

lemma takeWhile_replicate_append:
  "(case ys of [] \<Rightarrow> True | y # _ \<Rightarrow> y \<noteq> c) \<Longrightarrow>
     takeWhile (\<lambda>x. x = c) (replicate n c @ ys) = replicate n c"
  by (induction n) (auto split: list.splits)

lemma dropWhile_replicate_append:
  "(case ys of [] \<Rightarrow> True | y # _ \<Rightarrow> y \<noteq> c) \<Longrightarrow>
     dropWhile (\<lambda>x. x = c) (replicate n c @ ys) = ys"
  by (induction n) (auto split: list.splits)

lemma bar_counts:
  "filled_count (replicate n FILLED @ replicate k EMPTY @ [32] @ t) = n"
  "empty_count (replicate n FILLED @ replicate k EMPTY @ [32] @ t) = k"
proof -
  have f: "case replicate k EMPTY @ [32] @ t of [] \<Rightarrow> True | y # _ \<Rightarrow> y \<noteq> FILLED"
    by (cases k) (simp_all add: FILLED_def EMPTY_def)
  have e: "case [32] @ t of [] \<Rightarrow> True | y # _ \<Rightarrow> y \<noteq> EMPTY"
    by (simp add: EMPTY_def)
  show "filled_count (replicate n FILLED @ replicate k EMPTY @ [32] @ t) = n"
    unfolding filled_count_def by (subst takeWhile_replicate_append [OF f]) simp
  show "empty_count (replicate n FILLED @ replicate k EMPTY @ [32] @ t) = k"
    unfolding empty_count_def
    by (subst dropWhile_replicate_append [OF f], subst takeWhile_replicate_append [OF e]) simp
qed

lemma create_progress_bar_counts:
  "filled_count (create_progress_bar p n) = nat (float_trunc (fmul p (float_of_int n)))"
  "empty_count (create_progress_bar p n) = nat (n - int (filled_count (create_progress_bar p n)))"
proof -
  show f: "filled_count (create_progress_bar p n) = nat (float_trunc (fmul p (float_of_int n)))"
    by (simp add: create_progress_bar_def Let_def bar_counts del: append_Cons append_Nil)
  show "empty_count (create_progress_bar p n) = nat (n - int (filled_count (create_progress_bar p n)))"
    unfolding f
    by (simp add: create_progress_bar_def Let_def bar_counts del: append_Cons append_Nil)
qed

lemma bit_length_le:
  "0 \<le> n \<Longrightarrow> n < 2 ^ k \<Longrightarrow> bit_length n \<le> k"
proof (induction k arbitrary: n)
  case 0
  then have "n = 0" by simp
  then show ?case by (simp add: bit_length.simps)
next
  case (Suc k)
  show ?case
  proof (cases "n \<le> 0")
    case True
    then show ?thesis by (simp add: bit_length.simps)
  next
    case False
    have "n div 2 < 2 ^ k" "0 \<le> n div 2"
      using Suc.prems by auto
    from Suc.IH [OF this(2) this(1)] False show ?thesis
      by (subst bit_length.simps) simp
  qed
qed

lemma fl_round_exact: "\<bar>m\<bar> < 2 ^ 53 \<Longrightarrow> fl_round (Float m e) = Float m e"
  using bit_length_le [of "\<bar>m\<bar>" 53] by (simp add: fl_round_def Let_def)

lemma float_trunc_floor:
  assumes "0 \<le> m"
  shows "float_trunc (Float m e) = \<lfloor>float_value (Float m e)\<rfloor>"
proof (cases "0 \<le> e")
  case True
  then show ?thesis
    by (simp only: float_trunc_def float_value_def pyfloat.case if_True floor_of_int)
next
  case False
  have "\<lfloor>(of_int m :: rat) / 2 ^ nat (- e)\<rfloor> = m div 2 ^ nat (- e)"
    using floor_divide_of_int_eq [of m "2 ^ nat (- e)", where ?'a = rat] by simp
  with False assms show ?thesis
    by (cases "m = 0") (simp_all add: float_trunc_def float_value_def)
qed

lemma float_value_mult_int:
  "float_value (Float (m * n) e) = float_value (Float m e) * of_int n"
  by (simp add: float_value_def algebra_simps)

lemma filled_floor:
  assumes "0 \<le> m" "0 \<le> n" "n < 2 ^ 53" "m * n < 2 ^ 53"
  shows "float_trunc (fmul (Float m e) (float_of_int n)) = \<lfloor>float_value (Float m e) * of_int n\<rfloor>"
proof -
  have n: "float_of_int n = Float n 0"
    using assms by (simp add: float_of_int_def fl_round_exact)
  have "0 \<le> m * n" using assms by simp
  then have "fmul (Float m e) (Float n 0) = Float (m * n) e"
    using assms by (simp add: fmul_def fl_round_exact)
  with n \<open>0 \<le> m * n\<close> show ?thesis
    by (simp add: float_trunc_floor float_value_mult_int)
qed

text \<open>
  Claim C2, as the code has it. For every float and every length, the bar starts with
  \<open>int(percentage * length)\<close> filled glyphs, the float product truncated towards zero (and
  none when that is negative), followed by \<open>length\<close> minus that many empty glyphs, none when
  the difference is negative, then a space and the percentage. For a float \<open>m * 2 ^ e \<ge> 0\<close>
  whose product with 10 is exact, the filled count is the floor of ratio times 10. The
  filled count is not clamped to the length: \<open>0.0\<close> gives 0 filled and 10 empty glyphs,
  \<open>1.0\<close> gives 10 and 0, and \<open>1.5\<close> gives 15 filled glyphs and no empty one.
\<close>

theorem create_progress_bar_glyphs:
  "filled_count (create_progress_bar p n) = nat (float_trunc (fmul p (float_of_int n)))
   \<and> empty_count (create_progress_bar p n) = nat (n - int (filled_count (create_progress_bar p n)))
   \<and> create_progress_bar p n =
        replicate (filled_count (create_progress_bar p n)) FILLED
        @ replicate (empty_count (create_progress_bar p n)) EMPTY @ [32] @ format_percent1 p
   \<and> (0 \<le> m \<and> m * 10 < 2 ^ 53 \<longrightarrow>
        filled_count (create_progress_bar (Float m e) 10) = nat \<lfloor>float_value (Float m e) * 10\<rfloor>)
   \<and> filled_count (create_progress_bar (Float 0 0) 10) = 0
   \<and> empty_count (create_progress_bar (Float 0 0) 10) = 10
   \<and> filled_count (create_progress_bar (Float 1 0) 10) = 10
   \<and> empty_count (create_progress_bar (Float 1 0) 10) = 0
   \<and> filled_count (create_progress_bar (Float 3 (- 1)) 10) = 15
   \<and> empty_count (create_progress_bar (Float 3 (- 1)) 10) = 0"
proof -
  have 1: "create_progress_bar p n =
        replicate (filled_count (create_progress_bar p n)) FILLED
        @ replicate (empty_count (create_progress_bar p n)) EMPTY @ [32] @ format_percent1 p"
    unfolding create_progress_bar_counts
    by (simp add: create_progress_bar_def Let_def)
  have 2: "filled_count (create_progress_bar (Float m e) 10) = nat \<lfloor>float_value (Float m e) * 10\<rfloor>"
    if "0 \<le> m" "m * 10 < 2 ^ 53"
    using filled_floor [of m 10 e] that by (simp add: create_progress_bar_counts)
  have 3: "filled_count (create_progress_bar (Float 0 0) 10) = 0"
    "filled_count (create_progress_bar (Float 1 0) 10) = 10"
    "filled_count (create_progress_bar (Float 3 (- 1)) 10) = 15"
    by (simp_all add: create_progress_bar_counts float_eval)
  have 4: "empty_count (create_progress_bar (Float 0 0) 10) = 10"
    "empty_count (create_progress_bar (Float 1 0) 10) = 0"
    "empty_count (create_progress_bar (Float 3 (- 1)) 10) = 0"
    unfolding create_progress_bar_counts(2) 3 by simp_all
  from create_progress_bar_counts(1) [of p n] create_progress_bar_counts(2) [of p n] 1 2 3 4
  show ?thesis
    by blast
qed

theorem create_progress_bar_glyphs_witness:
  "(0::int) \<le> 3 \<and> (3::int) * 10 < 2 ^ 53
   \<and> filled_count (create_progress_bar (Float 3 (- 1)) 10) = nat \<lfloor>float_value (Float 3 (- 1)) * 10\<rfloor>
   \<and> nat \<lfloor>float_value (Float 3 (- 1)) * 10\<rfloor> = 15"
  using create_progress_bar_glyphs [of "Float 3 (- 1)" 10 3 "- 1"]
  by (simp add: float_value_def)

text \<open>
  The claim says the filled count never exceeds 10, and no more than 10 filled glyphs for
  the ratio 1.5. The code renders 15.
\<close>

theorem create_progress_bar_not_clamped:
  "\<not> filled_count (create_progress_bar (Float 3 (- 1)) 10) \<le> 10"
  by (simp add: create_progress_bar_counts float_eval)

end
